theory Spec2Isabelle
  imports Complex_Main "HOL-Library.Word"
begin

unbundle bit_operations_syntax

section \<open>Numeric model\<close>

text \<open>
  The sources are \<^verbatim>\<open>src/src/brute_force_attack_comparison.py\<close> (the functions the attack
  harness evaluates) and the cipher methods of \<^verbatim>\<open>ECGEncryptionGUI\<close> in
  \<^verbatim>\<open>src/src/ecg_gui_all.py\<close>.

  A float64 sample is modelled as a \<^typ>\<open>real\<close> with exact arithmetic: rounding error,
  infinities and not-a-number samples are outside the model. The one place where the code
  depends on a not-a-number value, the Pearson correlation of a trial, has a value of its
  own (\<open>NaN\<close> below). A \<^verbatim>\<open>np.uint8\<close> array is a list of 8-bit words, a float array
  a list of reals, an index array a list of naturals.
\<close>

type_synonym u8 = "8 word"

text \<open>
  Exceptions are values. \<open>ValueError\<close> is what NumPy raises for a reduction of an empty
  array and for operands whose shapes do not broadcast, \<open>IndexError\<close> what it raises for an
  index beyond the array. \<open>InvalidKeyDomain\<close> is the error the specification names for a
  key outside the admissible range; no statement of the source constructs it.
\<close>

datatype error = ValueError | IndexError | InvalidKeyDomain

definition bind_err :: "error + 'a \<Rightarrow> ('a \<Rightarrow> error + 'b) \<Rightarrow> error + 'b" where
  "bind_err m f = (case m of Inl e \<Rightarrow> Inl e | Inr v \<Rightarrow> f v)"

text \<open>
  \<^verbatim>\<open>.astype(np.uint8)\<close> on a float array: the fraction is dropped (towards zero); a value
  in \<open>[0, 256)\<close> keeps its integer part. Outside that range the C cast is platform
  dependent, and the model wraps modulo 256; the scaled signal is always in range, and so
  is the mask of a key in the admissible domain (\<open>mask_in_range\<close> below).
\<close>

definition astype_uint8 :: "real \<Rightarrow> u8" where
  "astype_uint8 x = word_of_int (if 0 \<le> x then \<lfloor>x\<rfloor> else \<lceil>x\<rceil>)"

text \<open>\<^verbatim>\<open>decrypted_scaled.astype(float)\<close>: the unsigned value of the byte.\<close>

definition astype_float :: "u8 \<Rightarrow> real" where
  "astype_float b = real (unat b)"

text \<open>\<^verbatim>\<open>np.min\<close> and \<open>np.max\<close> raise ValueError on an empty array.\<close>

definition np_min :: "real list \<Rightarrow> error + real" where
  "np_min xs = (if xs = [] then Inl ValueError else Inr (Min (set xs)))"

definition np_max :: "real list \<Rightarrow> error + real" where
  "np_max xs = (if xs = [] then Inl ValueError else Inr (Max (set xs)))"

text \<open>
  An element-wise binary operation of NumPy on two one-dimensional arrays (\<^verbatim>\<open>np.bitwise_xor\<close>,
  \<open>+\<close>, \<open>-\<close>, \<open>*\<close>): element by element for equal lengths, a length-one operand is
  broadcast, any other pair of lengths raises ValueError.
\<close>

definition broadcast2 :: "('a \<Rightarrow> 'b \<Rightarrow> 'c) \<Rightarrow> 'a list \<Rightarrow> 'b list \<Rightarrow> error + 'c list" where
  "broadcast2 f xs ys =
     (if length xs = length ys then Inr (map2 f xs ys)
      else if length xs = 1 then Inr (map (\<lambda>y. f (hd xs) y) ys)
      else if length ys = 1 then Inr (map (\<lambda>x. f x (hd ys)) xs)
      else Inl ValueError)"

definition bitwise_xor :: "u8 list \<Rightarrow> u8 list \<Rightarrow> error + u8 list" where
  "bitwise_xor xs ys = broadcast2 (XOR) xs ys"

definition np_add :: "real list \<Rightarrow> real list \<Rightarrow> error + real list" where
  "np_add xs ys = broadcast2 (+) xs ys"

definition np_sub :: "real list \<Rightarrow> real list \<Rightarrow> error + real list" where
  "np_sub xs ys = broadcast2 (-) xs ys"

text \<open>
  \<^verbatim>\<open>a[idx]\<close> with an index array: the elements at the listed positions, IndexError when a
  position is beyond the array. The index arrays of the source come from \<open>np.argsort\<close>,
  so they are never negative.
\<close>

definition fancy_index :: "'a list \<Rightarrow> nat list \<Rightarrow> error + 'a list" where
  "fancy_index xs idx =
     (if list_all (\<lambda>i. i < length xs) idx then Inr (map (\<lambda>i. xs ! i) idx) else Inl IndexError)"

text \<open>
  \<^verbatim>\<open>np.argsort\<close>: the positions of the array in ascending order of their values. Equal
  values are listed in ascending position (a stable sort); NumPy's default sort does not
  promise an order among equal values, and it returns some permutation that sorts the array.
\<close>

definition argsort :: "'a::linorder list \<Rightarrow> nat list" where
  "argsort xs = sort_key (\<lambda>i. xs ! i) [0..<length xs]"

section \<open>Chaotic sequence generator\<close>

text \<open>
  \<^verbatim>\<open>
  def logistic_map(x0, r, n):
      sequence = []
      x = x0
      for _ in range(n):
          x = r * x * (1 - x)
          sequence.append(x)
      return np.array(sequence)
  \<close>
  The loop body, from the current \<open>x\<close> with \<open>k\<close> rounds to go. Both copies of the function
  (module level and the method of the GUI class) have this body and no other statement;
  \<open>n\<close> is always the length of an array.
\<close>

fun logistic_loop :: "real \<Rightarrow> real \<Rightarrow> nat \<Rightarrow> real list" where
  "logistic_loop r x 0 = []"
| "logistic_loop r x (Suc k) = (let x' = r * x * (1 - x) in x' # logistic_loop r x' k)"

definition logistic_map :: "real \<Rightarrow> real \<Rightarrow> nat \<Rightarrow> error + real list" where
  "logistic_map x0 r n = Inr (logistic_loop r x0 n)"

section \<open>Cipher variants of the attack harness\<close>

text \<open>
  \<^verbatim>\<open>
  scaled_signal = ((signal - signal_min) / (signal_max - signal_min) * 255).astype(np.uint8)
                  if signal_max > signal_min else np.zeros_like(signal, dtype=np.uint8)
  xor_mask = np.floor(chaotic_seq * 255).astype(np.uint8)
  \<close>
\<close>

definition scale_signal :: "real list \<Rightarrow> real \<Rightarrow> real \<Rightarrow> u8 list" where
  "scale_signal signal signal_min signal_max =
     (if signal_max > signal_min
      then map (\<lambda>s. astype_uint8 ((s - signal_min) / (signal_max - signal_min) * 255)) signal
      else map (\<lambda>s. 0) signal)"

definition make_xor_mask :: "real list \<Rightarrow> u8 list" where
  "make_xor_mask chaotic_seq = map (\<lambda>c. astype_uint8 (real_of_int \<lfloor>c * 255\<rfloor>)) chaotic_seq"

text \<open>
  \<^verbatim>\<open>decrypted_signal = (decrypted_scaled.astype(float) / 255.0) * (signal_max - signal_min) + signal_min\<close>
\<close>

definition denormalize :: "u8 list \<Rightarrow> real \<times> real \<Rightarrow> real list" where
  "denormalize decrypted_scaled signal_range =
     (case signal_range of (signal_min, signal_max) \<Rightarrow>
        map (\<lambda>b. astype_float b / 255 * (signal_max - signal_min) + signal_min) decrypted_scaled)"

definition classical_chaotic_encrypt ::
  "real list \<Rightarrow> real \<Rightarrow> real \<Rightarrow> error + (u8 list \<times> (real \<times> real))" where
  "classical_chaotic_encrypt signal r x0 =
     (let n = length signal in
      bind_err (logistic_map x0 r n) (\<lambda>chaotic_seq.
      bind_err (np_min signal) (\<lambda>signal_min.
      bind_err (np_max signal) (\<lambda>signal_max.
      let scaled_signal = scale_signal signal signal_min signal_max;
          xor_mask = make_xor_mask chaotic_seq in
      bind_err (bitwise_xor scaled_signal xor_mask) (\<lambda>encrypted.
      Inr (encrypted, (signal_min, signal_max)))))))"

definition classical_chaotic_decrypt ::
  "u8 list \<Rightarrow> real \<Rightarrow> real \<Rightarrow> real \<times> real \<Rightarrow> error + real list" where
  "classical_chaotic_decrypt encrypted_signal r x0 signal_range =
     (let n = length encrypted_signal in
      bind_err (logistic_map x0 r n) (\<lambda>chaotic_seq.
      let xor_mask = make_xor_mask chaotic_seq in
      bind_err (bitwise_xor encrypted_signal xor_mask) (\<lambda>decrypted_scaled.
      Inr (denormalize decrypted_scaled signal_range))))"

text \<open>
  \<^verbatim>\<open>np.mean\<close> and \<open>np.std\<close> (the population standard deviation, \<open>ddof = 0\<close>). On an
  empty array NumPy returns not-a-number for both; the model is read on non-empty signals only.
\<close>

definition np_mean :: "real list \<Rightarrow> real" where
  "np_mean xs = sum_list xs / real (length xs)"

definition np_std :: "real list \<Rightarrow> real" where
  "np_std xs = sqrt (np_mean (map (\<lambda>x. \<bar>x - np_mean xs\<bar> ^ 2) xs))"

text \<open>
  The float operator \<open>%\<close> of Python for a positive divisor: the remainder of the floored
  division, in \<open>[0, b)\<close>.
\<close>

definition py_mod :: "real \<Rightarrow> real \<Rightarrow> real" where
  "py_mod a b = a - b * real_of_int \<lfloor>a / b\<rfloor>"

text \<open>
  \<^verbatim>\<open>
  def extract_biometric_key(ecg_signal):
      mean_val = np.mean(ecg_signal)
      std_val = np.std(ecg_signal)
      r = 3.6 + (std_val % 0.4)
      x0 = 0.1 + (mean_val % 0.8)
      return r, x0
  \<close>
\<close>

definition extract_biometric_key :: "real list \<Rightarrow> real \<times> real" where
  "extract_biometric_key ecg_signal =
     (let mean_val = np_mean ecg_signal;
          std_val = np_std ecg_signal;
          r = 3.6 + py_mod std_val 0.4;
          x0 = 0.1 + py_mod mean_val 0.8
      in (r, x0))"

text \<open>
  The permutation variants return the tuple
  \<^verbatim>\<open>encrypted, permutation, xor_mask, (signal_min, signal_max), r, x0\<close>.
  The optional arguments \<open>r\<close> and \<open>x0\<close> default to None; the key is derived from the signal
  when either is missing.
\<close>

type_synonym encrypt_output = "u8 list \<times> nat list \<times> u8 list \<times> (real \<times> real) \<times> real \<times> real"

definition permutation_encrypt :: "real list \<Rightarrow> real \<Rightarrow> real \<Rightarrow> error + encrypt_output" where
  "permutation_encrypt signal r x0 =
     (let n = length signal in
      bind_err (logistic_map x0 r n) (\<lambda>chaotic_seq.
      bind_err (np_min signal) (\<lambda>signal_min.
      bind_err (np_max signal) (\<lambda>signal_max.
      let scaled_signal = scale_signal signal signal_min signal_max;
          xor_mask = make_xor_mask chaotic_seq;
          permutation = argsort chaotic_seq in
      bind_err (fancy_index scaled_signal permutation) (\<lambda>permuted_signal.
      bind_err (bitwise_xor permuted_signal xor_mask) (\<lambda>encrypted.
      Inr (encrypted, permutation, xor_mask, (signal_min, signal_max), r, x0)))))))"

text \<open>
  \<^verbatim>\<open>biometric_encrypt(signal, r=None, x0=None)\<close>; the statements after the key selection
  are \<open>permutation_encrypt\<close>, which \<open>ml_enhanced_encrypt\<close> repeats line by line.
\<close>

definition biometric_encrypt ::
  "real list \<Rightarrow> real option \<Rightarrow> real option \<Rightarrow> error + encrypt_output" where
  "biometric_encrypt signal r x0 =
     (case (r, x0) of
        (Some r', Some x0') \<Rightarrow> permutation_encrypt signal r' x0'
      | _ \<Rightarrow> (case extract_biometric_key signal of (r', x0') \<Rightarrow> permutation_encrypt signal r' x0'))"

definition biometric_decrypt ::
  "u8 list \<Rightarrow> nat list \<Rightarrow> u8 list \<Rightarrow> real \<times> real \<Rightarrow> error + real list" where
  "biometric_decrypt encrypted_signal permutation xor_mask signal_range =
     bind_err (bitwise_xor encrypted_signal xor_mask) (\<lambda>xor_reversed.
     let inverse_perm = argsort permutation in
     bind_err (fancy_index xor_reversed inverse_perm) (\<lambda>decrypted_scaled.
     Inr (denormalize decrypted_scaled signal_range)))"

text \<open>
  \<^verbatim>\<open>ml_enhanced_encrypt(signal, model, scaler, imputer, r=None, x0=None)\<close>. The trained
  regressor with its scaler and imputer is the parameter \<open>predict_key\<close>: the key that
  \<^verbatim>\<open>predict_key(model, scaler, imputer, signal)\<close> returns, or the exception it raises.
\<close>

definition ml_enhanced_encrypt ::
  "real list \<Rightarrow> (real list \<Rightarrow> error + real \<times> real) \<Rightarrow> real option \<Rightarrow> real option
     \<Rightarrow> error + encrypt_output" where
  "ml_enhanced_encrypt signal predict_key r x0 =
     (case (r, x0) of
        (Some r', Some x0') \<Rightarrow> permutation_encrypt signal r' x0'
      | _ \<Rightarrow> bind_err (predict_key signal) (\<lambda>(r', x0'). permutation_encrypt signal r' x0'))"

section \<open>Cipher methods of the GUI class\<close>

text \<open>
  \<^verbatim>\<open>ECGEncryptionGUI.logistic_map\<close> fills \<open>np.zeros(n)\<close> with the same iterates.
\<close>

definition gui_logistic_map :: "real \<Rightarrow> real \<Rightarrow> nat \<Rightarrow> error + real list" where
  "gui_logistic_map x0 r n = Inr (logistic_loop r x0 n)"

text \<open>
  \<^verbatim>\<open>
  def chaotic_encrypt(self, signal, r, x0):
      n = len(signal)
      chaotic_seq = self.logistic_map(x0, r, n)
      perm_indices = np.argsort(chaotic_seq)
      permuted_signal = signal[perm_indices]
      encrypted = permuted_signal + chaotic_seq  # Float-safe
      return encrypted, perm_indices
  \<close>
\<close>

definition gui_chaotic_encrypt :: "real list \<Rightarrow> real \<Rightarrow> real \<Rightarrow> error + (real list \<times> nat list)" where
  "gui_chaotic_encrypt signal r x0 =
     (let n = length signal in
      bind_err (gui_logistic_map x0 r n) (\<lambda>chaotic_seq.
      let perm_indices = argsort chaotic_seq in
      bind_err (fancy_index signal perm_indices) (\<lambda>permuted_signal.
      bind_err (np_add permuted_signal chaotic_seq) (\<lambda>encrypted.
      Inr (encrypted, perm_indices)))))"

definition gui_chaotic_decrypt ::
  "real list \<Rightarrow> real \<Rightarrow> real \<Rightarrow> nat list \<Rightarrow> error + real list" where
  "gui_chaotic_decrypt encrypted_signal r x0 perm_indices =
     (let n = length encrypted_signal in
      bind_err (gui_logistic_map x0 r n) (\<lambda>chaotic_seq.
      bind_err (np_sub encrypted_signal chaotic_seq) (\<lambda>decrypted.
      let inverse_perm = argsort perm_indices in
      fancy_index decrypted inverse_perm)))"

definition gui_biometric_encrypt :: "real list \<Rightarrow> real \<Rightarrow> real \<Rightarrow> error + (real list \<times> nat list)" where
  "gui_biometric_encrypt signal r x0 = gui_chaotic_encrypt signal r x0"


section \<open>Brute-force attack\<close>

text \<open>
  \<^verbatim>\<open>np.corrcoef(x, y)[0, 1]\<close>, modelled from NumPy: arrays of different lengths raise
  ValueError; the covariance matrix is normalised by \<open>n - 1\<close> (by zero, with a warning,
  when \<open>n \<le> 1\<close>), divided by the two standard deviations and clipped to \<open>[-1, 1]\<close>. A zero
  divisor makes the entry \<open>0 / 0\<close>, not-a-number, and no exception is raised.
\<close>

datatype float_val = NaN | Fin real

definition np_clip :: "real \<Rightarrow> real \<Rightarrow> real \<Rightarrow> real" where
  "np_clip x lo hi = min (max x lo) hi"

definition corrcoef :: "real list \<Rightarrow> real list \<Rightarrow> error + float_val" where
  "corrcoef x y =
     (if length x \<noteq> length y then Inl ValueError
      else
        let fact = real (length x) - 1;
            c00 = (\<Sum>a\<leftarrow>x. (a - np_mean x) * (a - np_mean x)) / fact;
            c01 = (\<Sum>(a, b)\<leftarrow>zip x y. (a - np_mean x) * (b - np_mean y)) / fact;
            c11 = (\<Sum>b\<leftarrow>y. (b - np_mean y) * (b - np_mean y)) / fact
        in if fact \<le> 0 \<or> c00 = 0 \<or> c11 = 0 then Inr NaN
           else Inr (Fin (np_clip (c01 / sqrt c00 / sqrt c11) (-1) 1)))"

text \<open>
  \<^verbatim>\<open>abs(correlation) > bound\<close>: every comparison with not-a-number is False.
\<close>

fun abs_gt :: "float_val \<Rightarrow> real \<Rightarrow> bool" where
  "abs_gt NaN bound = False"
| "abs_gt (Fin c) bound = (\<bar>c\<bar> > bound)"

fun abs_val :: "float_val \<Rightarrow> real" where
  "abs_val NaN = 0"
| "abs_val (Fin c) = \<bar>c\<bar>"

text \<open>\<^verbatim>\<open>np.linspace(start, stop, num)\<close>.\<close>

definition linspace :: "real \<Rightarrow> real \<Rightarrow> nat \<Rightarrow> real list" where
  "linspace start stop num =
     map (\<lambda>i. start + real i * ((stop - start) / real (num - 1))) [0..<num]"

text \<open>
  The local variables of an attack function. \<open>max_attempts\<close> is any Python integer.
\<close>

record attack_state =
  success :: bool
  attempts :: nat
  best_match :: real
  best_params :: "(real \<times> real) option"

record attack_result = attack_state +
  success_rate :: real

text \<open>
  The three attack functions are one loop nest, copied, with their own grid, threshold
  and \<open>try\<close> body:
  \<^verbatim>\<open>
  for r in r_range:
      for x0 in x0_range:
          attempts += 1
          try:
              <decrypted = ...>
              correlation = np.corrcoef(original_signal, decrypted)[0, 1]
              if abs(correlation) > best_match:
                  best_match = abs(correlation)
                  best_params = (r, x0)
              if abs(correlation) > threshold:
                  success = True
                  break
          except:
              continue
          if attempts >= max_attempts:
              break
      if success or attempts >= max_attempts:
          break
  \<close>
  \<open>trial r x0\<close> is the part of the \<open>try\<close> body up to the correlation: \<open>Inl\<close> when it
  raises (the bare \<open>except\<close> catches it and the \<open>continue\<close> skips the check of
  \<open>max_attempts\<close>), \<open>Inr\<close> the correlation otherwise.
\<close>

fun inner_loop ::
  "(real \<Rightarrow> real \<Rightarrow> error + float_val) \<Rightarrow> real \<Rightarrow> int \<Rightarrow> real \<Rightarrow> real list
     \<Rightarrow> attack_state \<Rightarrow> attack_state" where
  "inner_loop trial threshold max_attempts r [] st = st"
| "inner_loop trial threshold max_attempts r (x0 # x0_rest) st =
     (let st1 = st\<lparr>attempts := attempts st + 1\<rparr> in
      case trial r x0 of
        Inl e \<Rightarrow> inner_loop trial threshold max_attempts r x0_rest st1
      | Inr correlation \<Rightarrow>
          let st2 = (if abs_gt correlation (best_match st1)
                     then st1\<lparr>best_match := abs_val correlation, best_params := Some (r, x0)\<rparr>
                     else st1)
          in if abs_gt correlation threshold then st2\<lparr>success := True\<rparr>
             else if int (attempts st2) \<ge> max_attempts then st2
             else inner_loop trial threshold max_attempts r x0_rest st2)"

fun outer_loop ::
  "(real \<Rightarrow> real \<Rightarrow> error + float_val) \<Rightarrow> real \<Rightarrow> int \<Rightarrow> real list \<Rightarrow> real list
     \<Rightarrow> attack_state \<Rightarrow> attack_state" where
  "outer_loop trial threshold max_attempts [] x0_range st = st"
| "outer_loop trial threshold max_attempts (r # r_rest) x0_range st =
     (let st' = inner_loop trial threshold max_attempts r x0_range st in
      if success st' \<or> int (attempts st') \<ge> max_attempts then st'
      else outer_loop trial threshold max_attempts r_rest x0_range st')"

text \<open>
  The initial assignments, the loop nest and the returned dictionary, with
  \<^verbatim>\<open>'success_rate': attempts / (len(r_range) * len(x0_range))
       if attempts < len(r_range) * len(x0_range) else 1.0\<close>.
\<close>

definition brute_force_search ::
  "(real \<Rightarrow> real \<Rightarrow> error + float_val) \<Rightarrow> real \<Rightarrow> real list \<Rightarrow> real list \<Rightarrow> int
     \<Rightarrow> attack_result" where
  "brute_force_search trial threshold r_range x0_range max_attempts =
     (let st = outer_loop trial threshold max_attempts r_range x0_range
                 \<lparr>success = False, attempts = 0, best_match = 0, best_params = None\<rparr>
      in \<lparr>success = success st, attempts = attempts st, best_match = best_match st,
          best_params = best_params st,
          success_rate = (if attempts st < length r_range * length x0_range
                          then real (attempts st) / real (length r_range * length x0_range)
                          else 1)\<rparr>)"

text \<open>
  The \<open>try\<close> body of the classical attack:
  \<^verbatim>\<open>
  decrypted = classical_chaotic_decrypt(encrypted_signal, r, x0, signal_range)
  correlation = np.corrcoef(original_signal, decrypted)[0, 1]
  \<close>
\<close>

definition classical_trial ::
  "u8 list \<Rightarrow> real list \<Rightarrow> real \<times> real \<Rightarrow> real \<Rightarrow> real \<Rightarrow> error + float_val" where
  "classical_trial encrypted_signal original_signal signal_range r x0 =
     bind_err (classical_chaotic_decrypt encrypted_signal r x0 signal_range) (\<lambda>decrypted.
     corrcoef original_signal decrypted)"

text \<open>
  The \<open>try\<close> body of the biometric and of the ml-enhanced attack:
  \<^verbatim>\<open>
  n = len(encrypted_signal)
  chaotic_seq = logistic_map(x0, r, n)
  permutation = np.argsort(chaotic_seq)
  xor_mask = np.floor(chaotic_seq * 255).astype(np.uint8)
  xor_reversed = np.bitwise_xor(encrypted_signal, xor_mask)
  inverse_perm = np.argsort(permutation)
  decrypted_scaled = xor_reversed[inverse_perm]
  signal_min, signal_max = signal_range
  decrypted = (decrypted_scaled.astype(float) / 255.0) * (signal_max - signal_min) + signal_min
  correlation = np.corrcoef(original_signal, decrypted)[0, 1]
  \<close>
\<close>

definition permutation_trial ::
  "u8 list \<Rightarrow> real list \<Rightarrow> real \<times> real \<Rightarrow> real \<Rightarrow> real \<Rightarrow> error + float_val" where
  "permutation_trial encrypted_signal original_signal signal_range r x0 =
     (let n = length encrypted_signal in
      bind_err (logistic_map x0 r n) (\<lambda>chaotic_seq.
      let permutation = argsort chaotic_seq;
          xor_mask = make_xor_mask chaotic_seq in
      bind_err (bitwise_xor encrypted_signal xor_mask) (\<lambda>xor_reversed.
      let inverse_perm = argsort permutation in
      bind_err (fancy_index xor_reversed inverse_perm) (\<lambda>decrypted_scaled.
      let decrypted = denormalize decrypted_scaled signal_range in
      corrcoef original_signal decrypted))))"

definition brute_force_attack_classical ::
  "u8 list \<Rightarrow> real list \<Rightarrow> real \<times> real \<Rightarrow> int \<Rightarrow> attack_result" where
  "brute_force_attack_classical encrypted_signal original_signal signal_range max_attempts =
     brute_force_search (classical_trial encrypted_signal original_signal signal_range) 0.7
       (linspace 3.5 4.0 20) (linspace 0.1 0.9 10) max_attempts"

definition brute_force_attack_biometric ::
  "u8 list \<Rightarrow> real list \<Rightarrow> real \<times> real \<Rightarrow> int \<Rightarrow> attack_result" where
  "brute_force_attack_biometric encrypted_signal original_signal signal_range max_attempts =
     brute_force_search (permutation_trial encrypted_signal original_signal signal_range) 0.8
       (linspace 3.5 4.0 25) (linspace 0.1 0.9 16) max_attempts"

text \<open>
  \<^verbatim>\<open>brute_force_attack_ml_enhanced\<close> also takes \<open>model, scaler, imputer\<close> and never
  reads them.
\<close>

definition brute_force_attack_ml_enhanced ::
  "u8 list \<Rightarrow> real list \<Rightarrow> real \<times> real \<Rightarrow> int \<Rightarrow> attack_result" where
  "brute_force_attack_ml_enhanced encrypted_signal original_signal signal_range max_attempts =
     brute_force_search (permutation_trial encrypted_signal original_signal signal_range) 0.85
       (linspace 3.5 4.0 30) (linspace 0.1 0.9 20) max_attempts"

section \<open>Properties of an attack result\<close>

text \<open>
  The trials of a grid in the order of the loop nest (\<open>r\<close> outer, \<open>x0\<close> inner) are
  \<open>List.product r_range x0_range\<close>. \<open>abs_correlations\<close> lists the absolute correlations of
  those trials of a list that neither raise nor yield not-a-number.
\<close>

fun abs_correlations :: "(real \<Rightarrow> real \<Rightarrow> error + float_val) \<Rightarrow> (real \<times> real) list \<Rightarrow> real list" where
  "abs_correlations trial [] = []"
| "abs_correlations trial ((r, x0) # ps) =
     (case trial r x0 of
        Inr (Fin c) \<Rightarrow> \<bar>c\<bar> # abs_correlations trial ps
      | _ \<Rightarrow> abs_correlations trial ps)"

text \<open>
  The bound on the attempts of a result, for a grid of \<open>grid_size\<close> trials: at least one
  and at most \<open>grid_size\<close> trials are counted; the count stays within a positive
  \<open>max_attempts\<close> when no trial raises; the success rate is the count over the grid size,
  capped at \<open>1\<close>, and is \<open>1\<close> exactly when the whole grid was tried.
\<close>

definition attempts_bounded :: "nat \<Rightarrow> int \<Rightarrow> bool \<Rightarrow> attack_result \<Rightarrow> bool" where
  "attempts_bounded grid_size max_attempts no_raise res \<longleftrightarrow>
     1 \<le> attempts res \<and> attempts res \<le> grid_size
     \<and> (1 \<le> max_attempts \<and> no_raise \<longrightarrow> int (attempts res) \<le> max_attempts)
     \<and> success_rate res = min 1 (real (attempts res) / real grid_size)
     \<and> (success_rate res = 1 \<longleftrightarrow> attempts res = grid_size)"

text \<open>
  The link between the fields of a result: the evaluated trials are the first
  \<open>attempts\<close> trials of the grid; \<open>best_match\<close> is the largest absolute correlation among
  them (and \<open>0\<close>, its initial value, when there is none), so it lies in \<open>[0, 1]\<close>; on
  success it exceeds the threshold and \<open>best_params\<close> is an evaluated trial whose absolute
  correlation is \<open>best_match\<close>.
\<close>

definition result_linked ::
  "(real \<Rightarrow> real \<Rightarrow> error + float_val) \<Rightarrow> real \<Rightarrow> real list \<Rightarrow> real list \<Rightarrow> attack_result \<Rightarrow> bool" where
  "result_linked trial threshold r_range x0_range res \<longleftrightarrow>
     (let evaluated = take (attempts res) (List.product r_range x0_range) in
        (success res \<longrightarrow>
           best_match res > threshold
           \<and> (case best_params res of
                None \<Rightarrow> False
              | Some (r, x0) \<Rightarrow>
                  (r, x0) \<in> set evaluated \<and> trial r x0 = Inr (Fin (best_match res))
                  \<or> (r, x0) \<in> set evaluated \<and> trial r x0 = Inr (Fin (- best_match res))))
        \<and> best_match res = Max (set (0 # abs_correlations trial evaluated))
        \<and> 0 \<le> best_match res \<and> best_match res \<le> 1)"

section \<open>Evaluation lemmas\<close>

lemma bind_err_Inr [simp]: "bind_err (Inr v) f = f v"
  by (simp add: bind_err_def)

lemma bind_err_Inl [simp]: "bind_err (Inl e) f = Inl e"
  by (simp add: bind_err_def)

lemma broadcast2_same_length: "length xs = length ys \<Longrightarrow> broadcast2 f xs ys = Inr (map2 f xs ys)"
  by (simp add: broadcast2_def)

lemma length_logistic_loop [simp]: "length (logistic_loop r x n) = n"
  by (induction n arbitrary: x) (simp_all add: Let_def)

lemma logistic_step_bounds:
  fixes r x :: real
  assumes "0 \<le> r" "r \<le> 4" "0 \<le> x" "x \<le> 1"
  shows "0 \<le> r * x * (1 - x)" "r * x * (1 - x) \<le> 1"
proof -
  show "0 \<le> r * x * (1 - x)" using assms by simp
  have "x * (1 - x) \<le> 1 / 4"
  proof -
    have "0 \<le> (x - 1 / 2)\<^sup>2" by simp
    then show ?thesis by (simp add: power2_eq_square algebra_simps)
  qed
  moreover have "0 \<le> x * (1 - x)" using assms by simp
  ultimately have "r * (x * (1 - x)) \<le> 4 * (1 / 4)"
    using assms by (intro mult_mono) simp_all
  then show "r * x * (1 - x) \<le> 1" by (simp add: mult.assoc)
qed

lemma logistic_loop_bounds:
  "0 \<le> r \<Longrightarrow> r \<le> 4 \<Longrightarrow> 0 \<le> x \<Longrightarrow> x \<le> 1 \<Longrightarrow> y \<in> set (logistic_loop r x n) \<Longrightarrow> 0 \<le> y \<and> y \<le> 1"
proof (induction n arbitrary: x)
  case 0
  then show ?case by simp
next
  case (Suc n)
  from Suc.prems have b: "0 \<le> r * x * (1 - x)" "r * x * (1 - x) \<le> 1"
    by (simp_all add: logistic_step_bounds)
  from Suc.prems(5) have "y = r * x * (1 - x) \<or> y \<in> set (logistic_loop r (r * x * (1 - x)) n)"
    by (simp add: Let_def)
  then show ?case
  proof
    assume "y = r * x * (1 - x)"
    with b show ?thesis by simp
  next
    assume "y \<in> set (logistic_loop r (r * x * (1 - x)) n)"
    with Suc.IH [OF Suc.prems(1,2) b] show ?thesis by simp
  qed
qed

lemma mask_in_range:
  assumes "0 < r" "r \<le> 4" "0 < x0" "x0 < 1" "c \<in> set (logistic_loop r x0 n)"
  shows "0 \<le> \<lfloor>c * 255\<rfloor> \<and> \<lfloor>c * 255\<rfloor> \<le> 255"
proof -
  from assms have "0 \<le> r" "r \<le> 4" "0 \<le> x0" "x0 \<le> 1" by simp_all
  then have "0 \<le> c \<and> c \<le> 1" using assms(5) by (rule logistic_loop_bounds)
  then have "0 \<le> c * 255" "c * 255 \<le> 255" by simp_all
  then show ?thesis by (simp add: floor_le_iff)
qed

lemma astype_uint8_of_int [simp]: "astype_uint8 (real_of_int k) = word_of_int k"
  by (simp add: astype_uint8_def)

lemma loop5:
  "logistic_loop (37/10) (3/10) 5 =
     [777 / 1000, 6411027 / 10000000, 851333103795027 / 1000000000000000,
      4682906856576853030583692563027 / 10000000000000000000000000000000,
      921279721720579019196622532516471219172882482485137950406099027 /
      1000000000000000000000000000000000000000000000000000000000000000]"
  by (simp add: eval_nat_numeral Let_def)

lemma mask5: "make_xor_mask (logistic_loop (37/10) (3/10) 5) = [198, 163, 217, 119, 234]"
  unfolding loop5 by (simp add: make_xor_mask_def)

lemma scaled5: "scale_signal [1, 2, 3, 4, 5] 1 5 = [0, 63, 127, 191, 255]"
  by (simp add: scale_signal_def astype_uint8_def)

lemma np_min_max_nonempty:
  "signal \<noteq> [] \<Longrightarrow> np_min signal = Inr (Min (set signal))"
  "signal \<noteq> [] \<Longrightarrow> np_max signal = Inr (Max (set signal))"
  by (simp_all add: np_min_def np_max_def)

lemma length_scale_signal [simp]: "length (scale_signal signal lo hi) = length signal"
  by (simp add: scale_signal_def)

lemma length_make_xor_mask [simp]: "length (make_xor_mask cs) = length cs"
  by (simp add: make_xor_mask_def)

lemma classical_chaotic_encrypt_eq:
  assumes "signal \<noteq> []"
  shows "classical_chaotic_encrypt signal r x0 =
           Inr (map2 (XOR) (scale_signal signal (Min (set signal)) (Max (set signal)))
                  (make_xor_mask (logistic_loop r x0 (length signal))),
                (Min (set signal), Max (set signal)))"
  unfolding classical_chaotic_encrypt_def logistic_map_def Let_def bitwise_xor_def
  by (simp add: np_min_max_nonempty [OF assms] broadcast2_same_length)

section \<open>The concrete scenario of the specification\<close>

lemma enc5:
  "classical_chaotic_encrypt [1, 2, 3, 4, 5] 3.7 0.3 = Inr ([198, 156, 166, 200, 21], (1, 5))"
proof -
  have len: "length [1, 2, 3, 4, 5 :: real] = 5" by simp
  have mm: "Min (set [1, 2, 3, 4, 5 :: real]) = 1" "Max (set [1, 2, 3, 4, 5 :: real]) = 5"
    by simp_all
  have ne: "[1, 2, 3, 4, 5 :: real] \<noteq> []" by simp
  have "classical_chaotic_encrypt [1, 2, 3, 4, 5] 3.7 0.3 =
          Inr (map2 (XOR) (scale_signal [1, 2, 3, 4, 5] 1 5)
                 (make_xor_mask (logistic_loop 3.7 0.3 5)), (1, 5))"
    by (simp only: classical_chaotic_encrypt_eq [OF ne] len mm)
  also have "\<dots> = Inr (map2 (XOR) [0, 63, 127, 191, 255] [198, 163, 217, 119, 234], (1, 5))"
    by (simp only: scaled5 mask5)
  also have "\<dots> = Inr ([198, 156, 166, 200, 21], (1, 5))"
    by simp
  finally show ?thesis .
qed

text \<open>
  Claim C3, as the code computes it: for the signal \<open>[1, 2, 3, 4, 5]\<close> with \<open>r = 3.7\<close> and
  \<open>x0 = 0.3\<close> the first chaotic iterate is \<open>0.777\<close>, the range is \<open>(1, 5)\<close>, the 8-bit
  scaling drops the fraction and is \<open>[0, 63, 127, 191, 255]\<close>, byte 0 of the mask is
  \<open>198\<close>, and the classical ciphertext is \<open>[198, 156, 166, 200, 21]\<close>, whose first byte is
  \<open>0 XOR 198 = 198\<close>.
\<close>

theorem concrete_scenario_truncated:
  "logistic_map 0.3 3.7 1 = Inr [0.777]
   \<and> np_min [1, 2, 3, 4, 5] = Inr 1 \<and> np_max [1, 2, 3, 4, 5] = Inr 5
   \<and> scale_signal [1, 2, 3, 4, 5] 1 5 = [0, 63, 127, 191, 255]
   \<and> make_xor_mask [0.777] = [198]
   \<and> (0 :: u8) XOR 198 = 198
   \<and> classical_chaotic_encrypt [1, 2, 3, 4, 5] 3.7 0.3 = Inr ([198, 156, 166, 200, 21], (1, 5))"
proof -
  have "logistic_map 0.3 3.7 1 = Inr [0.777]"
    by (simp add: logistic_map_def)
  moreover have "np_min [1, 2, 3, 4, 5] = Inr 1" "np_max [1, 2, 3, 4, 5] = Inr 5"
    by (simp_all add: np_min_def np_max_def)
  moreover have "make_xor_mask [0.777] = [198]"
    by (simp add: make_xor_mask_def astype_uint8_def)
  moreover have "(0 :: u8) XOR 198 = 198"
    by simp
  ultimately show ?thesis
    using scaled5 enc5 by (simp only: simp_thms)
qed

text \<open>
  Claim C3 as the specification states it: the scaled signal is not the rounded
  \<open>[0, 64, 128, 191, 255]\<close>; \<open>63.75\<close> and \<open>127.5\<close> become \<open>63\<close> and \<open>127\<close>.
\<close>

theorem concrete_scenario_rounded_counterexample:
  "scale_signal [1, 2, 3, 4, 5] 1 5 \<noteq> [0, 64, 128, 191, 255]"
  by (simp add: scale_signal_def astype_uint8_def)

section \<open>Key derivation\<close>


lemma py_mod_zero [simp]: "py_mod 0 b = 0"
  by (simp add: py_mod_def)

lemma sum_list_const: "\<forall>x\<in>set xs. x = c \<Longrightarrow> sum_list xs = real (length xs) * c"
  by (induction xs) (simp_all add: algebra_simps)

lemma np_mean_const:
  assumes "xs \<noteq> []" "\<forall>x\<in>set xs. x = c"
  shows "np_mean xs = c"
  using assms by (simp add: np_mean_def sum_list_const)




section \<open>Permutations from argsort\<close>

lemma length_argsort [simp]: "length (argsort xs) = length xs"
  by (simp add: argsort_def)

lemma set_argsort [simp]: "set (argsort xs) = {0..<length xs}"
  by (simp add: argsort_def)

lemma distinct_argsort [simp]: "distinct (argsort xs)"
  by (simp add: argsort_def)

lemma sorted_argsort: "sorted (map (\<lambda>i. xs ! i) (argsort xs))"
  by (simp add: argsort_def sorted_sort_key)

lemma fancy_index_argsort:
  "length ys = length xs \<Longrightarrow> fancy_index ys (argsort xs) = Inr (map (\<lambda>i. ys ! i) (argsort xs))"
  by (simp add: fancy_index_def list_all_iff)

text \<open>The argsort of a permutation of \<open>0, \<dots>, n - 1\<close> is its inverse.\<close>

lemma argsort_inverse:
  assumes "distinct p" "set p = {0..<length p}"
  shows "map (\<lambda>i. p ! i) (argsort p) = [0..<length p]"
proof (rule sorted_distinct_set_unique)
  show "sorted (map (\<lambda>i. p ! i) (argsort p))" by (rule sorted_argsort)
  have inj: "inj_on (\<lambda>i. p ! i) {0..<length p}"
    using assms(1) by (auto simp: inj_on_def nth_eq_iff_index_eq)
  show "distinct (map (\<lambda>i. p ! i) (argsort p))"
    using inj by (simp add: distinct_map)
  have "(\<lambda>i. p ! i) ` {0..<length p} = set p"
    by (auto simp: set_conv_nth)
  then show "set (map (\<lambda>i. p ! i) (argsort p)) = set [0..<length p]"
    using assms(2) by simp
qed simp_all

lemma permute_inverse:
  assumes "distinct p" "set p = {0..<length p}" "length xs = length p"
  shows "map (\<lambda>j. map (\<lambda>i. xs ! i) p ! j) (argsort p) = xs"
proof -
  have "map (\<lambda>j. map (\<lambda>i. xs ! i) p ! j) (argsort p) = map (\<lambda>j. xs ! (p ! j)) (argsort p)"
    by (rule map_cong) simp_all
  also have "\<dots> = map (\<lambda>k. xs ! k) (map (\<lambda>j. p ! j) (argsort p))"
    by (simp add: comp_def)
  also have "\<dots> = map (\<lambda>k. xs ! k) [0..<length xs]"
    using argsort_inverse [OF assms(1,2)] assms(3) by simp
  also have "\<dots> = xs"
    by (rule map_nth)
  finally show ?thesis .
qed

section \<open>The cipher functions in closed form\<close>

lemma map2_xor_cancel:
  fixes xs ms :: "u8 list"
  shows "length xs = length ms \<Longrightarrow> map2 (XOR) (map2 (XOR) xs ms) ms = xs"
proof (induction xs arbitrary: ms)
  case Nil
  then show ?case by simp
next
  case (Cons x xs)
  then obtain m ms' where "ms = m # ms'" by (cases ms) simp_all
  with Cons show ?case by (simp add: xor.assoc)
qed

lemma classical_chaotic_decrypt_eq:
  "classical_chaotic_decrypt encrypted_signal r x0 signal_range =
     Inr (denormalize (map2 (XOR) encrypted_signal
            (make_xor_mask (logistic_loop r x0 (length encrypted_signal)))) signal_range)"
  unfolding classical_chaotic_decrypt_def logistic_map_def Let_def bitwise_xor_def
  by (simp add: broadcast2_same_length)

lemma permutation_encrypt_eq:
  assumes "signal \<noteq> []"
  shows "permutation_encrypt signal r x0 =
           Inr (map2 (XOR)
                  (map (\<lambda>i. scale_signal signal (Min (set signal)) (Max (set signal)) ! i)
                     (argsort (logistic_loop r x0 (length signal))))
                  (make_xor_mask (logistic_loop r x0 (length signal))),
                argsort (logistic_loop r x0 (length signal)),
                make_xor_mask (logistic_loop r x0 (length signal)),
                (Min (set signal), Max (set signal)), r, x0)"
  unfolding permutation_encrypt_def logistic_map_def Let_def bitwise_xor_def
  by (simp add: np_min_max_nonempty [OF assms] broadcast2_same_length fancy_index_argsort)

lemma encrypt_empty:
  "classical_chaotic_encrypt [] r x0 = Inl ValueError"
  "permutation_encrypt [] r x0 = Inl ValueError"
  by (simp_all add: classical_chaotic_encrypt_def permutation_encrypt_def logistic_map_def np_min_def)

lemma biometric_decrypt_eq:
  assumes "length encrypted_signal = length xor_mask" "length permutation = length xor_mask"
  shows "biometric_decrypt encrypted_signal permutation xor_mask signal_range =
           Inr (denormalize (map (\<lambda>j. map2 (XOR) encrypted_signal xor_mask ! j) (argsort permutation))
                  signal_range)"
  unfolding biometric_decrypt_def Let_def bitwise_xor_def
  using assms by (simp add: broadcast2_same_length fancy_index_argsort)

section \<open>Quantisation\<close>



section \<open>Round trip\<close>




lemma select_key [simp]:
  "biometric_encrypt signal (Some r) (Some x0) = permutation_encrypt signal r x0"
  "ml_enhanced_encrypt signal predict_key (Some r) (Some x0) = permutation_encrypt signal r x0"
  by (simp_all add: biometric_encrypt_def ml_enhanced_encrypt_def)



section \<open>Key domain\<close>

text \<open>
  Claim C2 as the specification states it: with \<open>r = 5\<close>, outside \<open>(0, 4]\<close>, the generator
  returns a sequence, whose iterates leave \<open>[0, 1]\<close>, and the classical encrypt call
  returns a ciphertext instead of failing.
\<close>

theorem logistic_map_out_of_domain_counterexample:
  "logistic_map (1 / 2) 5 2 = Inr [5 / 4, - (25 / 16)]
   \<and> gui_logistic_map (1 / 2) 5 2 = Inr [5 / 4, - (25 / 16)]
   \<and> classical_chaotic_encrypt [5] 5 (1 / 10) = Inr ([114], (5, 5))"
proof -
  have l: "logistic_loop 5 (1 / 2) 2 = [5 / 4, - (25 / 16)]"
    by (simp add: eval_nat_numeral Let_def)
  have l1: "logistic_loop 5 (1 / 10) 1 = [9 / 20]"
    by (simp add: Let_def)
  have m: "make_xor_mask [9 / 20] = [114]"
    by (simp add: make_xor_mask_def)
  have ne: "[5 :: real] \<noteq> []" by simp
  have len: "length [5 :: real] = 1" by simp
  have "classical_chaotic_encrypt [5] 5 (1 / 10) =
          Inr (map2 (XOR) (scale_signal [5] 5 5) [114], (5, 5))"
    unfolding classical_chaotic_encrypt_eq [OF ne] len l1 m by simp
  then show ?thesis
    by (simp add: logistic_map_def gui_logistic_map_def l scale_signal_def)
qed

text \<open>
  Claim C2, amended: neither copy of the generator checks the key. For every \<open>r\<close>, \<open>x0\<close>
  and \<open>n\<close> it returns the \<open>n\<close> iterates, and no encrypt or decrypt call that invokes it
  fails with \<open>InvalidKeyDomain\<close>. For \<open>r\<close> in \<open>(0, 4]\<close> and \<open>x0\<close> in \<open>(0, 1)\<close> every
  iterate stays in \<open>[0, 1]\<close>.
\<close>

theorem logistic_map_never_rejects:
  "(\<exists>xs. logistic_map x0 r n = Inr xs \<and> gui_logistic_map x0 r n = Inr xs \<and> length xs = n
         \<and> (0 < r \<and> r \<le> 4 \<and> 0 < x0 \<and> x0 < 1 \<longrightarrow> (\<forall>x\<in>set xs. 0 \<le> x \<and> x \<le> 1)))
   \<and> classical_chaotic_encrypt signal r x0 \<noteq> Inl InvalidKeyDomain
   \<and> classical_chaotic_decrypt encrypted_signal r x0 signal_range \<noteq> Inl InvalidKeyDomain
   \<and> biometric_encrypt signal (Some r) (Some x0) \<noteq> Inl InvalidKeyDomain
   \<and> ml_enhanced_encrypt signal predict_key (Some r) (Some x0) \<noteq> Inl InvalidKeyDomain"
proof -
  have b: "0 < r \<and> r \<le> 4 \<and> 0 < x0 \<and> x0 < 1 \<longrightarrow> (\<forall>x\<in>set (logistic_loop r x0 n). 0 \<le> x \<and> x \<le> 1)"
  proof (intro impI ballI)
    fix x
    assume k: "0 < r \<and> r \<le> 4 \<and> 0 < x0 \<and> x0 < 1" and x: "x \<in> set (logistic_loop r x0 n)"
    from k have "0 \<le> r" "r \<le> 4" "0 \<le> x0" "x0 \<le> 1" by simp_all
    then show "0 \<le> x \<and> x \<le> 1" using x by (rule logistic_loop_bounds)
  qed
  have g: "\<exists>xs. logistic_map x0 r n = Inr xs \<and> gui_logistic_map x0 r n = Inr xs \<and> length xs = n
         \<and> (0 < r \<and> r \<le> 4 \<and> 0 < x0 \<and> x0 < 1 \<longrightarrow> (\<forall>x\<in>set xs. 0 \<le> x \<and> x \<le> 1))"
    unfolding logistic_map_def gui_logistic_map_def
    by (intro exI [of _ "logistic_loop r x0 n"] conjI refl length_logistic_loop b)
  have e: "classical_chaotic_encrypt signal r x0 \<noteq> Inl InvalidKeyDomain"
    by (cases "signal = []") (simp_all add: encrypt_empty classical_chaotic_encrypt_eq)
  have d: "classical_chaotic_decrypt encrypted_signal r x0 signal_range \<noteq> Inl InvalidKeyDomain"
    by (simp add: classical_chaotic_decrypt_eq)
  have p: "permutation_encrypt signal r x0 \<noteq> Inl InvalidKeyDomain"
    by (cases "signal = []") (simp_all add: encrypt_empty permutation_encrypt_eq)
  show ?thesis
    unfolding select_key by (intro conjI g e d p)
qed

theorem logistic_map_never_rejects_witness:
  "(0 :: real) < 3.7 \<and> (3.7 :: real) \<le> 4 \<and> (0 :: real) < 0.3 \<and> (0.3 :: real) < 1
   \<and> logistic_map 0.3 3.7 1 = Inr [0.777] \<and> (0 :: real) \<le> 0.777 \<and> (0.777 :: real) \<le> 1
   \<and> (\<exists>xs. logistic_map 0.3 3.7 5 = Inr xs \<and> length xs = 5 \<and> list_all (\<lambda>x. 0 \<le> x \<and> x \<le> 1) xs)"
proof -
  have k: "(0 :: real) < 3.7 \<and> (3.7 :: real) \<le> 4 \<and> (0 :: real) < 0.3 \<and> (0.3 :: real) < 1"
    by simp
  from logistic_map_never_rejects [of "0.3" "3.7" 5, THEN conjunct1]
  obtain xs where x: "logistic_map 0.3 3.7 5 = Inr xs" "length xs = 5"
      "(0 :: real) < 3.7 \<and> (3.7 :: real) \<le> 4 \<and> (0 :: real) < 0.3 \<and> (0.3 :: real) < 1
         \<longrightarrow> (\<forall>x\<in>set xs. 0 \<le> x \<and> x \<le> 1)"
    by blast
  from x(3) k have "list_all (\<lambda>x. 0 \<le> x \<and> x \<le> 1) xs"
    unfolding list_all_iff by (rule mp)
  with x(1,2) have e: "\<exists>xs. logistic_map 0.3 3.7 5 = Inr xs \<and> length xs = 5
      \<and> list_all (\<lambda>x. 0 \<le> x \<and> x \<le> 1) xs"
    by blast
  have l: "logistic_map 0.3 3.7 1 = Inr [0.777]"
    by (simp add: logistic_map_def)
  have n: "(0 :: real) \<le> 0.777" "(0.777 :: real) \<le> 1"
    by simp_all
  from k l n e show ?thesis by (intro conjI) simp_all
qed

section \<open>What an encrypt call returns\<close>

lemma upt5: "[0..<5] = [0, 1, 2, 3, 4]"
  by (simp add: upt_rec)

lemma perm5: "argsort (logistic_loop (37/10) (3/10) 5) = [3, 1, 0, 2, 4]"
  unfolding loop5 argsort_def by (simp add: upt5)

lemma bio5:
  "permutation_encrypt [1, 2, 3, 4, 5] (37/10) (3/10) =
     Inr ([121, 156, 217, 8, 21], [3, 1, 0, 2, 4], [198, 163, 217, 119, 234], (1, 5), 37/10, 3/10)"
proof -
  have len: "length [1, 2, 3, 4, 5 :: real] = 5" by simp
  have mm: "Min (set [1, 2, 3, 4, 5 :: real]) = 1" "Max (set [1, 2, 3, 4, 5 :: real]) = 5"
    by simp_all
  have ne: "[1, 2, 3, 4, 5 :: real] \<noteq> []" by simp
  have "permutation_encrypt [1, 2, 3, 4, 5] (37/10) (3/10) =
          Inr (map2 (XOR) (map (\<lambda>i. [0, 63, 127, 191, 255] ! i) [3, 1, 0, 2, 4])
                 [198, 163, 217, 119, 234],
               [3, 1, 0, 2, 4], [198, 163, 217, 119, 234], (1, 5), 37/10, 3/10)"
    by (simp only: permutation_encrypt_eq [OF ne] len mm scaled5 mask5 perm5)
  also have "\<dots> = Inr ([121, 156, 217, 8, 21], [3, 1, 0, 2, 4], [198, 163, 217, 119, 234],
                      (1, 5), 37/10, 3/10)"
    by simp
  finally show ?thesis .
qed

lemma gui_chaotic_encrypt_eq:
  "gui_chaotic_encrypt signal r x0 =
     Inr (map2 (+) (map (\<lambda>i. signal ! i) (argsort (logistic_loop r x0 (length signal))))
            (logistic_loop r x0 (length signal)),
          argsort (logistic_loop r x0 (length signal)))"
  unfolding gui_chaotic_encrypt_def gui_logistic_map_def Let_def np_add_def
  by (simp add: broadcast2_same_length fancy_index_argsort)

lemma gui5:
  "gui_chaotic_encrypt [1, 2, 3, 4, 5] (37/10) (3/10) =
     Inr ([4777 / 1000, 26411027 / 10000000, 1851333103795027 / 1000000000000000,
           34682906856576853030583692563027 / 10000000000000000000000000000000,
           5921279721720579019196622532516471219172882482485137950406099027 /
           1000000000000000000000000000000000000000000000000000000000000000],
          [3, 1, 0, 2, 4])"
proof -
  have len: "length [1, 2, 3, 4, 5 :: real] = 5" by simp
  show ?thesis
    unfolding gui_chaotic_encrypt_eq len perm5 unfolding loop5 by simp
qed

text \<open>
  Claim C6 as the specification states it: the tuple that \<open>biometric_encrypt\<close> returns
  for \<open>[1, 2, 3, 4, 5]\<close> under the key \<open>(3.7, 0.3)\<close> has the key as its last two
  components and the XOR mask as its third.
\<close>

theorem biometric_encrypt_returns_key_counterexample:
  "biometric_encrypt [1, 2, 3, 4, 5] (Some 3.7) (Some 0.3) =
     Inr ([121, 156, 217, 8, 21], [3, 1, 0, 2, 4], [198, 163, 217, 119, 234], (1, 5), 3.7, 0.3)"
  unfolding select_key using bio5 by simp

text \<open>
  Claim C6, amended: the classical encrypt call returns the ciphertext and the
  normalisation range only. The biometric and the ml-enhanced encrypt call return the
  ciphertext with the permutation, the XOR mask, the normalisation range and the key
  \<open>(r, x0)\<close> itself, the one supplied or else the one derived from the signal or predicted;
  the returned ciphertext XOR the returned mask is the permuted scaled signal, and
  \<open>biometric_decrypt\<close> inverts the ciphertext from the returned permutation and mask.
\<close>

theorem encrypt_output_carries_key:
  assumes "signal \<noteq> []"
  shows "(\<exists>enc perm mask rng.
            biometric_encrypt signal (Some r) (Some x0) = Inr (enc, perm, mask, rng, r, x0)
            \<and> ml_enhanced_encrypt signal predict_key (Some r) (Some x0) = Inr (enc, perm, mask, rng, r, x0)
            \<and> mask = make_xor_mask (logistic_loop r x0 (length signal))
            \<and> rng = (Min (set signal), Max (set signal))
            \<and> bitwise_xor enc mask = fancy_index (scale_signal signal (fst rng) (snd rng)) perm
            \<and> biometric_decrypt enc perm mask rng =
                Inr (denormalize (scale_signal signal (fst rng) (snd rng)) rng))
         \<and> (\<exists>enc perm mask rng.
            biometric_encrypt signal None None =
              Inr (enc, perm, mask, rng, fst (extract_biometric_key signal),
                   snd (extract_biometric_key signal)))
         \<and> (predict_key signal = Inr (r', x0') \<longrightarrow>
              (\<exists>enc perm mask rng.
                 ml_enhanced_encrypt signal predict_key None None = Inr (enc, perm, mask, rng, r', x0')))
         \<and> (\<exists>enc. classical_chaotic_encrypt signal r x0 =
                     Inr (enc, (Min (set signal), Max (set signal))))"
proof (intro conjI)
  let ?sc = "scale_signal signal (Min (set signal)) (Max (set signal))"
  let ?p = "argsort (logistic_loop r x0 (length signal))"
  let ?m = "make_xor_mask (logistic_loop r x0 (length signal))"
  let ?enc = "map2 (XOR) (map (\<lambda>i. ?sc ! i) ?p) ?m"
  let ?rng = "(Min (set signal), Max (set signal))"
  have x: "bitwise_xor ?enc ?m = fancy_index ?sc ?p"
    by (simp add: bitwise_xor_def broadcast2_same_length fancy_index_argsort map2_xor_cancel)
  have inv: "map (\<lambda>j. map (\<lambda>i. ?sc ! i) ?p ! j) (argsort ?p) = ?sc"
    by (rule permute_inverse) simp_all
  have c: "map2 (XOR) ?enc ?m = map (\<lambda>i. ?sc ! i) ?p"
    by (rule map2_xor_cancel) simp
  have d: "biometric_decrypt ?enc ?p ?m ?rng = Inr (denormalize ?sc ?rng)"
    by (subst biometric_decrypt_eq) (simp_all only: c inv length_map length_zip length_argsort
          length_make_xor_mask length_logistic_loop min.idem)
  show "\<exists>enc perm mask rng.
            biometric_encrypt signal (Some r) (Some x0) = Inr (enc, perm, mask, rng, r, x0)
            \<and> ml_enhanced_encrypt signal predict_key (Some r) (Some x0) = Inr (enc, perm, mask, rng, r, x0)
            \<and> mask = make_xor_mask (logistic_loop r x0 (length signal))
            \<and> rng = (Min (set signal), Max (set signal))
            \<and> bitwise_xor enc mask = fancy_index (scale_signal signal (fst rng) (snd rng)) perm
            \<and> biometric_decrypt enc perm mask rng =
                Inr (denormalize (scale_signal signal (fst rng) (snd rng)) rng)"
    unfolding select_key permutation_encrypt_eq [OF assms]
    by (intro exI [of _ ?enc] exI [of _ ?p] exI [of _ ?m] exI [of _ ?rng] conjI)
       (simp_all only: x d fst_conv snd_conv)
  show "\<exists>enc perm mask rng.
            biometric_encrypt signal None None =
              Inr (enc, perm, mask, rng, fst (extract_biometric_key signal),
                   snd (extract_biometric_key signal))"
    by (simp add: biometric_encrypt_def permutation_encrypt_eq [OF assms] split: prod.split)
  show "predict_key signal = Inr (r', x0') \<longrightarrow>
              (\<exists>enc perm mask rng.
                 ml_enhanced_encrypt signal predict_key None None = Inr (enc, perm, mask, rng, r', x0'))"
    by (simp add: ml_enhanced_encrypt_def permutation_encrypt_eq [OF assms])
  show "\<exists>enc. classical_chaotic_encrypt signal r x0 =
                     Inr (enc, (Min (set signal), Max (set signal)))"
    by (simp add: classical_chaotic_encrypt_eq [OF assms])
qed

theorem encrypt_output_carries_key_witness:
  "[1, 2, 3, 4, 5 :: real] \<noteq> []
   \<and> bitwise_xor [121, 156, 217, 8, 21] [198, 163, 217, 119, 234] =
       fancy_index [0, 63, 127, 191, 255] [3, 1, 0, 2, 4]
   \<and> (\<exists>enc perm mask rng.
         ml_enhanced_encrypt [1, 2, 3, 4, 5] (\<lambda>s. Inr (3.7, 0.3)) None None =
           Inr (enc, perm, mask, rng, 3.7, 0.3))"
proof -
  have ne: "[1, 2, 3, 4, 5 :: real] \<noteq> []" by simp
  have mm: "Min (set [1, 2, 3, 4, 5 :: real]) = 1" "Max (set [1, 2, 3, 4, 5 :: real]) = 5"
    by simp_all
  note t = encrypt_output_carries_key [OF ne, of "3.7" "0.3" "\<lambda>s. Inr (3.7, 0.3)" "3.7" "0.3"]
  from t [THEN conjunct1] obtain enc perm mask rng where
    1: "biometric_encrypt [1, 2, 3, 4, 5] (Some 3.7) (Some 0.3) = Inr (enc, perm, mask, rng, 3.7, 0.3)"
       "rng = (Min (set [1, 2, 3, 4, 5 :: real]), Max (set [1, 2, 3, 4, 5 :: real]))"
       "bitwise_xor enc mask = fancy_index (scale_signal [1, 2, 3, 4, 5] (fst rng) (snd rng)) perm"
    by blast
  from 1(1) have e: "enc = [121, 156, 217, 8, 21]" "perm = [3, 1, 0, 2, 4]"
      "mask = [198, 163, 217, 119, 234]"
    unfolding select_key using bio5 by simp_all
  from 1(3) have a: "bitwise_xor [121, 156, 217, 8, 21] [198, 163, 217, 119, 234] =
       fancy_index [0, 63, 127, 191, 255] [3, 1, 0, 2, 4]"
    unfolding e 1(2) mm fst_conv snd_conv scaled5 .
  from t [THEN conjunct2, THEN conjunct2, THEN conjunct1]
  have b: "\<exists>enc perm mask rng.
         ml_enhanced_encrypt [1, 2, 3, 4, 5] (\<lambda>s. Inr (3.7, 0.3)) None None =
           Inr (enc, perm, mask, rng, 3.7, 0.3)"
    by simp
  from ne a b show ?thesis by (intro conjI)
qed

section \<open>The two biometric transforms\<close>

text \<open>
  Claim C8: the additive transform of the GUI class and the permutation-plus-XOR
  transform of the attack harness are different ciphers. For the signal \<open>[1, 2, 3, 4, 5]\<close>
  and the admissible key \<open>(3.7, 0.3)\<close> both use the permutation \<open>[3, 1, 0, 2, 4]\<close>, and the
  float ciphertext of the first is neither the byte ciphertext of the second read as
  floats nor its de-normalisation.
\<close>

theorem two_biometric_transforms_differ:
  "\<exists>signal r x0 gui_enc gui_perm enc perm mask rng.
     0 < r \<and> r \<le> 4 \<and> 0 < x0 \<and> x0 < 1 \<and> signal \<noteq> []
     \<and> gui_chaotic_encrypt signal r x0 = Inr (gui_enc, gui_perm)
     \<and> gui_biometric_encrypt signal r x0 = Inr (gui_enc, gui_perm)
     \<and> biometric_encrypt signal (Some r) (Some x0) = Inr (enc, perm, mask, rng, r, x0)
     \<and> gui_perm = perm
     \<and> gui_enc \<noteq> map astype_float enc
     \<and> gui_enc \<noteq> denormalize enc rng"
proof -
  let ?g = "[4777 / 1000, 26411027 / 10000000, 1851333103795027 / 1000000000000000,
           34682906856576853030583692563027 / 10000000000000000000000000000000,
           5921279721720579019196622532516471219172882482485137950406099027 /
           1000000000000000000000000000000000000000000000000000000000000000 :: real]"
  have 1: "?g \<noteq> map astype_float [121, 156, 217, 8, 21]"
    by (simp add: astype_float_def)
  have 2: "?g \<noteq> denormalize [121, 156, 217, 8, 21] (1, 5)"
    by (simp add: denormalize_def astype_float_def)
  have k: "(0 :: real) < 37 / 10" "(37 / 10 :: real) \<le> 4" "(0 :: real) < 3 / 10" "(3 / 10 :: real) < 1"
    "[1, 2, 3, 4, 5 :: real] \<noteq> []"
    by simp_all
  have b: "biometric_encrypt [1, 2, 3, 4, 5] (Some (37 / 10)) (Some (3 / 10)) =
     Inr ([121, 156, 217, 8, 21], [3, 1, 0, 2, 4], [198, 163, 217, 119, 234], (1, 5), 37 / 10, 3 / 10)"
    unfolding select_key by (rule bio5)
  have g: "gui_biometric_encrypt [1, 2, 3, 4, 5] (37 / 10) (3 / 10) = Inr (?g, [3, 1, 0, 2, 4])"
    unfolding gui_biometric_encrypt_def by (rule gui5)
  show ?thesis
    by (intro exI [of _ "[1, 2, 3, 4, 5]"] exI [of _ "37 / 10"] exI [of _ "3 / 10"] exI [of _ ?g]
          exI [of _ "[3, 1, 0, 2, 4]"] exI [of _ "[121, 156, 217, 8, 21]"]
          exI [of _ "[198, 163, 217, 119, 234]"] exI [of _ "(1, 5)"] conjI k gui5 g b refl 1 2)
qed

section \<open>Determinism\<close>







section \<open>The search loop\<close>



lemma inner_loop_fin:
  "trial r x0 = Inr (Fin c) \<Longrightarrow>
     inner_loop trial threshold max_attempts r (x0 # x0_rest) st =
       (let st2 = (if \<bar>c\<bar> > best_match st
                   then st\<lparr>attempts := attempts st + 1, best_match := \<bar>c\<bar>, best_params := Some (r, x0)\<rparr>
                   else st\<lparr>attempts := attempts st + 1\<rparr>)
        in if \<bar>c\<bar> > threshold then st2\<lparr>success := True\<rparr>
           else if max_attempts \<le> int (attempts st + 1) then st2
           else inner_loop trial threshold max_attempts r x0_rest st2)"
  by (simp add: Let_def)

lemma trial_cases:
  obtains e where "trial r x0 = Inl e" | "trial r x0 = Inr NaN" | c where "trial r x0 = Inr (Fin c)"
proof (cases "trial r x0")
  case (Inl e)
  then show ?thesis using that by simp
next
  case (Inr v)
  then show ?thesis using that by (cases v) simp_all
qed

lemma fold_max_Max: "Max (set (a # xs)) = fold max xs (a :: real)"
  by (rule Max.set_eq_fold)

lemma Max_Cons_append:
  "Max (set ((a :: real) # xs @ ys)) = Max (set (Max (set (a # xs)) # ys))"
  unfolding fold_max_Max by simp

lemma abs_correlations_append:
  "abs_correlations trial (ps @ qs) = abs_correlations trial ps @ abs_correlations trial qs"
  by (induction ps) (auto split: sum.splits float_val.splits)

text \<open>
  The inner loop from state \<open>st\<close> over the row \<open>xs\<close> evaluates a prefix of the row, of
  \<open>k\<close> trials: it counts them, stops before the end of the row only on success or on an
  exhausted budget, and keeps the largest absolute correlation seen.
\<close>

lemma inner_loop_prefix:
  "\<exists>k\<le>length xs.
     attempts (inner_loop trial thr m r xs st) = attempts st + k
     \<and> (xs \<noteq> [] \<longrightarrow> 0 < k)
     \<and> (k < length xs \<longrightarrow> success (inner_loop trial thr m r xs st)
                            \<or> m \<le> int (attempts (inner_loop trial thr m r xs st)))
     \<and> best_match (inner_loop trial thr m r xs st) =
         Max (set (best_match st # abs_correlations trial (map (Pair r) (take k xs))))"
proof (induction xs arbitrary: st)
  case Nil
  then show ?case by simp
next
  case (Cons x0 xs)
  let ?st1 = "st\<lparr>attempts := attempts st + 1\<rparr>"
  let ?I = "inner_loop trial thr m r (x0 # xs) st"
  have stop: ?case
    if "attempts ?I = attempts st + 1" "success ?I \<or> m \<le> int (attempts ?I)"
       "best_match ?I = Max (set (best_match st # abs_correlations trial [(r, x0)]))"
  proof (intro exI [of _ 1] conjI impI)
    show "(1 :: nat) \<le> length (x0 # xs)" by simp
    show "attempts ?I = attempts st + 1" by (rule that)
    show "0 < (1 :: nat)" by simp
    show "success ?I \<or> m \<le> int (attempts ?I)" by (rule that)
    show "best_match ?I = Max (set (best_match st # abs_correlations trial (map (Pair r) (take 1 (x0 # xs)))))"
      using that(3) by simp
  qed
  have cont: ?case
    if eq: "?I = inner_loop trial thr m r xs st2" and a: "attempts st2 = attempts st + 1"
      and b: "best_match st2 = Max (set (best_match st # abs_correlations trial [(r, x0)]))"
    for st2
  proof -
    from Cons.IH [of st2] obtain k where k: "k \<le> length xs"
        "attempts (inner_loop trial thr m r xs st2) = attempts st2 + k"
        "k < length xs \<longrightarrow> success (inner_loop trial thr m r xs st2)
                            \<or> m \<le> int (attempts (inner_loop trial thr m r xs st2))"
        "best_match (inner_loop trial thr m r xs st2) =
           Max (set (best_match st2 # abs_correlations trial (map (Pair r) (take k xs))))"
      by blast
    have "abs_correlations trial (map (Pair r) (take (Suc k) (x0 # xs))) =
            abs_correlations trial [(r, x0)] @ abs_correlations trial (map (Pair r) (take k xs))"
      by (simp split: sum.split float_val.split)
    then have "Max (set (best_match st # abs_correlations trial (map (Pair r) (take (Suc k) (x0 # xs))))) =
          Max (set (best_match st2 # abs_correlations trial (map (Pair r) (take k xs))))"
      unfolding b by (simp only: Max_Cons_append)
    with k a show ?thesis
      unfolding eq by (intro exI [of _ "Suc k"]) simp
  qed
  show ?case
  proof (cases rule: trial_cases [of trial r x0])
    case (1 e)
    show ?thesis
      by (rule cont [of ?st1]) (use 1 in \<open>simp_all add: Let_def\<close>)
  next
    case 2
    show ?thesis
    proof (cases "m \<le> int (attempts st + 1)")
      case True
      show ?thesis by (rule stop) (use 2 True in \<open>simp_all add: Let_def\<close>)
    next
      case False
      show ?thesis by (rule cont [of ?st1]) (use 2 False in \<open>simp_all add: Let_def\<close>)
    qed
  next
    case (3 c)
    let ?st2 = "if \<bar>c\<bar> > best_match st
                   then st\<lparr>attempts := attempts st + 1, best_match := \<bar>c\<bar>, best_params := Some (r, x0)\<rparr>
                   else st\<lparr>attempts := attempts st + 1\<rparr>"
    show ?thesis
    proof (cases "\<bar>c\<bar> > thr \<or> m \<le> int (attempts st + 1)")
      case True
      show ?thesis by (rule stop) (use 3 True in \<open>auto simp: Let_def\<close>)
    next
      case False
      show ?thesis by (rule cont [of ?st2]) (use 3 False in \<open>auto simp: Let_def\<close>)
    qed
  qed
qed

text \<open>
  Started without success and with \<open>best_match\<close> not above the threshold, the inner loop
  ends with success exactly when its last evaluated trial exceeds the threshold, and that
  trial is then \<open>best_params\<close>.
\<close>

lemma inner_loop_success:
  assumes "\<not> success st" "best_match st \<le> thr"
  shows "(success (inner_loop trial thr m r xs st) \<longrightarrow>
            thr < best_match (inner_loop trial thr m r xs st)
            \<and> (\<exists>x0 c. best_params (inner_loop trial thr m r xs st) = Some (r, x0)
                   \<and> x0 \<in> set (take (attempts (inner_loop trial thr m r xs st) - attempts st) xs)
                   \<and> trial r x0 = Inr (Fin c)
                   \<and> \<bar>c\<bar> = best_match (inner_loop trial thr m r xs st)))
         \<and> (\<not> success (inner_loop trial thr m r xs st) \<longrightarrow>
              best_match (inner_loop trial thr m r xs st) \<le> thr)"
  using assms
proof (induction xs arbitrary: st)
  case Nil
  then show ?case by simp
next
  case (Cons x0 xs)
  let ?I = "inner_loop trial thr m r (x0 # xs) st"
  have cont: ?case
    if eq: "?I = inner_loop trial thr m r xs st2" and a: "attempts st2 = attempts st + 1"
      and s: "\<not> success st2" and b: "best_match st2 \<le> thr"
    for st2
  proof -
    from inner_loop_prefix [of xs trial thr m r st2] a
    have ge: "attempts st + 1 \<le> attempts (inner_loop trial thr m r xs st2)"
      by auto
    then have d: "attempts (inner_loop trial thr m r xs st2) - attempts st =
        Suc (attempts (inner_loop trial thr m r xs st2) - attempts st2)"
      using a by simp
    from Cons.IH [OF s b] show ?thesis
      unfolding eq d by auto
  qed
  show ?case
  proof (cases rule: trial_cases [of trial r x0])
    case (1 e)
    show ?thesis
      by (rule cont [of "st\<lparr>attempts := attempts st + 1\<rparr>"])
         (use 1 Cons.prems in \<open>simp_all add: Let_def\<close>)
  next
    case 2
    show ?thesis
    proof (cases "m \<le> int (attempts st + 1)")
      case True
      then show ?thesis using 2 Cons.prems by (simp add: Let_def)
    next
      case False
      show ?thesis
        by (rule cont [of "st\<lparr>attempts := attempts st + 1\<rparr>"])
           (use 2 False Cons.prems in \<open>simp_all add: Let_def\<close>)
    qed
  next
    case (3 c)
    let ?st2 = "if \<bar>c\<bar> > best_match st
                   then st\<lparr>attempts := attempts st + 1, best_match := \<bar>c\<bar>, best_params := Some (r, x0)\<rparr>
                   else st\<lparr>attempts := attempts st + 1\<rparr>"
    show ?thesis
    proof (cases "\<bar>c\<bar> > thr")
      case True
      then have "\<bar>c\<bar> > best_match st" using Cons.prems by simp
      with True 3 Cons.prems show ?thesis by (simp add: Let_def)
    next
      case nt: False
      show ?thesis
      proof (cases "m \<le> int (attempts st + 1)")
        case True
        with nt 3 Cons.prems show ?thesis by (simp add: Let_def)
      next
        case False
        show ?thesis
          by (rule cont [of ?st2]) (use 3 nt False Cons.prems in \<open>auto simp: Let_def\<close>)
      qed
    qed
  qed
qed

lemma take_product_row:
  "k \<le> length xs \<Longrightarrow> take k (List.product (r # rs) xs) = map (Pair r) (take k xs)"
  by (simp add: take_map)

lemma take_product_rest:
  "take (length xs + k) (List.product (r # rs) xs) = map (Pair r) xs @ take k (List.product rs xs)"
  by simp

text \<open>
  The loop nest evaluates a prefix of the grid in row-major order, of \<open>k\<close> trials, and
  keeps the largest absolute correlation seen.
\<close>

lemma outer_loop_prefix:
  "\<exists>k\<le>length rs * length xs.
     attempts (outer_loop trial thr m rs xs st) = attempts st + k
     \<and> (rs \<noteq> [] \<and> xs \<noteq> [] \<longrightarrow> 0 < k)
     \<and> (k < length rs * length xs \<longrightarrow> success (outer_loop trial thr m rs xs st)
                            \<or> m \<le> int (attempts (outer_loop trial thr m rs xs st)))
     \<and> best_match (outer_loop trial thr m rs xs st) =
         Max (set (best_match st # abs_correlations trial (take k (List.product rs xs))))"
proof (induction rs arbitrary: st)
  case Nil
  then show ?case by simp
next
  case (Cons r rs)
  let ?I = "inner_loop trial thr m r xs st"
  from inner_loop_prefix [of xs trial thr m r st] obtain k1 where k1: "k1 \<le> length xs"
      "attempts ?I = attempts st + k1" "xs \<noteq> [] \<longrightarrow> 0 < k1"
      "k1 < length xs \<longrightarrow> success ?I \<or> m \<le> int (attempts ?I)"
      "best_match ?I = Max (set (best_match st # abs_correlations trial (map (Pair r) (take k1 xs))))"
    by blast
  show ?case
  proof (cases "success ?I \<or> m \<le> int (attempts ?I)")
    case True
    then have eq: "outer_loop trial thr m (r # rs) xs st = ?I"
      by (simp add: Let_def)
    have "k1 \<le> length (r # rs) * length xs" using k1(1) by simp
    then show ?thesis
      unfolding eq using k1 True by (intro exI [of _ k1]) (simp add: take_map)
  next
    case False
    then have eq: "outer_loop trial thr m (r # rs) xs st = outer_loop trial thr m rs xs ?I"
      by (simp add: Let_def)
    from False k1(1,4) have full: "k1 = length xs" by auto
    from Cons.IH [of ?I] obtain k2 where k2: "k2 \<le> length rs * length xs"
        "attempts (outer_loop trial thr m rs xs ?I) = attempts ?I + k2"
        "best_match (outer_loop trial thr m rs xs ?I) =
           Max (set (best_match ?I # abs_correlations trial (take k2 (List.product rs xs))))"
        "k2 < length rs * length xs \<longrightarrow> success (outer_loop trial thr m rs xs ?I)
                            \<or> m \<le> int (attempts (outer_loop trial thr m rs xs ?I))"
      by blast
    have "best_match (outer_loop trial thr m rs xs ?I) =
        Max (set (best_match st # abs_correlations trial (take (length xs + k2) (List.product (r # rs) xs))))"
      unfolding k2(3) k1(5) full take_product_rest abs_correlations_append
      by (simp only: take_all [OF order_refl] Max_Cons_append)
    with k1 k2 full show ?thesis
      unfolding eq by (intro exI [of _ "length xs + k2"]) simp
  qed
qed

lemma outer_loop_success:
  assumes "\<not> success st" "best_match st \<le> thr"
  shows "(success (outer_loop trial thr m rs xs st) \<longrightarrow>
            thr < best_match (outer_loop trial thr m rs xs st)
            \<and> (\<exists>r x0 c. best_params (outer_loop trial thr m rs xs st) = Some (r, x0)
                   \<and> (r, x0) \<in> set (take (attempts (outer_loop trial thr m rs xs st) - attempts st)
                                       (List.product rs xs))
                   \<and> trial r x0 = Inr (Fin c)
                   \<and> \<bar>c\<bar> = best_match (outer_loop trial thr m rs xs st)))
         \<and> (\<not> success (outer_loop trial thr m rs xs st) \<longrightarrow>
              best_match (outer_loop trial thr m rs xs st) \<le> thr)"
  using assms
proof (induction rs arbitrary: st)
  case Nil
  then show ?case by simp
next
  case (Cons r rs)
  let ?I = "inner_loop trial thr m r xs st"
  note i = inner_loop_success [OF Cons.prems, of trial m r xs]
  from inner_loop_prefix [of xs trial thr m r st] obtain k1 where k1: "k1 \<le> length xs"
      "attempts ?I = attempts st + k1"
      "k1 < length xs \<longrightarrow> success ?I \<or> m \<le> int (attempts ?I)"
    by blast
  show ?case
  proof (cases "success ?I \<or> m \<le> int (attempts ?I)")
    case True
    then have eq: "outer_loop trial thr m (r # rs) xs st = ?I"
      by (simp add: Let_def)
    have t: "take (attempts ?I - attempts st) (List.product (r # rs) xs) =
        map (Pair r) (take (attempts ?I - attempts st) xs)"
      using k1 by (intro take_product_row) simp
    from i show ?thesis
      unfolding eq t by auto
  next
    case False
    then have eq: "outer_loop trial thr m (r # rs) xs st = outer_loop trial thr m rs xs ?I"
      by (simp add: Let_def)
    from False k1 have full: "attempts ?I = attempts st + length xs" by auto
    from False i have p: "\<not> success ?I" "best_match ?I \<le> thr" by simp_all
    from outer_loop_prefix [of rs xs trial thr m ?I]
    have ge: "attempts ?I \<le> attempts (outer_loop trial thr m rs xs ?I)" by auto
    have d: "attempts (outer_loop trial thr m rs xs ?I) - attempts st =
        length xs + (attempts (outer_loop trial thr m rs xs ?I) - attempts ?I)"
      using ge full by simp
    from Cons.IH [OF p] show ?thesis
      unfolding eq d take_product_rest by auto
  qed
qed

text \<open>When no trial raises, a positive budget is never exceeded.\<close>

lemma inner_loop_budget:
  assumes "\<And>x0 e. trial r x0 \<noteq> Inl e" "int (attempts st) < m"
  shows "int (attempts (inner_loop trial thr m r xs st)) \<le> m"
  using assms(2)
proof (induction xs arbitrary: st)
  case Nil
  then show ?case by simp
next
  case (Cons x0 xs)
  show ?case
  proof (cases rule: trial_cases [of trial r x0])
    case (1 e)
    with assms(1) show ?thesis by simp
  next
    case 2
    show ?thesis
    proof (cases "m \<le> int (attempts st + 1)")
      case True
      with 2 Cons.prems show ?thesis by (simp add: Let_def)
    next
      case False
      then have "int (attempts (st\<lparr>attempts := attempts st + 1\<rparr>)) < m" by simp
      from Cons.IH [OF this] 2 False show ?thesis by (simp add: Let_def)
    qed
  next
    case (3 c)
    let ?st2 = "if \<bar>c\<bar> > best_match st
                   then st\<lparr>attempts := attempts st + 1, best_match := \<bar>c\<bar>, best_params := Some (r, x0)\<rparr>
                   else st\<lparr>attempts := attempts st + 1\<rparr>"
    show ?thesis
    proof (cases "\<bar>c\<bar> > thr \<or> m \<le> int (attempts st + 1)")
      case True
      with 3 Cons.prems show ?thesis by (auto simp: Let_def)
    next
      case False
      then have "int (attempts ?st2) < m" by simp
      from Cons.IH [OF this] 3 False show ?thesis by (auto simp: Let_def)
    qed
  qed
qed

lemma outer_loop_budget:
  assumes "\<And>r x0 e. trial r x0 \<noteq> Inl e" "int (attempts st) < m"
  shows "int (attempts (outer_loop trial thr m rs xs st)) \<le> m"
  using assms(2)
proof (induction rs arbitrary: st)
  case Nil
  then show ?case by simp
next
  case (Cons r rs)
  let ?I = "inner_loop trial thr m r xs st"
  have i: "int (attempts ?I) \<le> m"
    using assms(1) Cons.prems by (rule inner_loop_budget)
  show ?case
  proof (cases "success ?I \<or> m \<le> int (attempts ?I)")
    case True
    with i show ?thesis by (simp add: Let_def)
  next
    case False
    then have "int (attempts ?I) < m" by simp
    from Cons.IH [OF this] False show ?thesis by (simp add: Let_def)
  qed
qed

section \<open>Results of a search\<close>

lemma abs_correlations_bounded:
  assumes "\<And>r x0 c. trial r x0 = Inr (Fin c) \<Longrightarrow> \<bar>c\<bar> \<le> 1"
  shows "x \<in> set (abs_correlations trial ps) \<Longrightarrow> 0 \<le> x \<and> x \<le> 1"
proof (induction ps)
  case Nil
  then show ?case by simp
next
  case (Cons p ps)
  obtain r x0 where p: "p = (r, x0)" by (cases p)
  show ?case
  proof (cases rule: trial_cases [of trial r x0])
    case (3 c)
    with Cons p assms [OF 3] show ?thesis by auto
  qed (use Cons p in auto)
qed

lemma search_fields:
  "success (brute_force_search trial thr r_range x0_range m) =
     success (outer_loop trial thr m r_range x0_range
                \<lparr>success = False, attempts = 0, best_match = 0, best_params = None\<rparr>)"
  "attempts (brute_force_search trial thr r_range x0_range m) =
     attempts (outer_loop trial thr m r_range x0_range
                \<lparr>success = False, attempts = 0, best_match = 0, best_params = None\<rparr>)"
  "best_match (brute_force_search trial thr r_range x0_range m) =
     best_match (outer_loop trial thr m r_range x0_range
                \<lparr>success = False, attempts = 0, best_match = 0, best_params = None\<rparr>)"
  "best_params (brute_force_search trial thr r_range x0_range m) =
     best_params (outer_loop trial thr m r_range x0_range
                \<lparr>success = False, attempts = 0, best_match = 0, best_params = None\<rparr>)"
  "success_rate (brute_force_search trial thr r_range x0_range m) =
     (if attempts (outer_loop trial thr m r_range x0_range
                \<lparr>success = False, attempts = 0, best_match = 0, best_params = None\<rparr>)
           < length r_range * length x0_range
      then real (attempts (outer_loop trial thr m r_range x0_range
                \<lparr>success = False, attempts = 0, best_match = 0, best_params = None\<rparr>))
             / real (length r_range * length x0_range)
      else 1)"
  by (simp_all add: brute_force_search_def Let_def)

lemma rate_min:
  fixes a g :: nat
  assumes "0 < g" "a \<le> g"
  shows "(if a < g then real a / real g else 1) = min 1 (real a / real g)"
    and "min 1 (real a / real g) = 1 \<longleftrightarrow> a = g"
proof -
  have "1 \<le> real a / real g \<longleftrightarrow> real g \<le> real a"
    using assms(1) by (simp add: le_divide_eq)
  also have "\<dots> \<longleftrightarrow> a = g"
    using assms(2) by auto
  finally have e: "1 \<le> real a / real g \<longleftrightarrow> a = g" .
  then show "min 1 (real a / real g) = 1 \<longleftrightarrow> a = g"
    by (auto simp: min_def)
  from e assms show "(if a < g then real a / real g else 1) = min 1 (real a / real g)"
    by (auto simp: min_def)
qed

lemma search_attempts_bounded:
  assumes "r_range \<noteq> []" "x0_range \<noteq> []" "no_raise \<Longrightarrow> (\<And>r x0 e. trial r x0 \<noteq> Inl e)"
  shows "attempts_bounded (length r_range * length x0_range) m no_raise
           (brute_force_search trial thr r_range x0_range m)"
proof -
  let ?st0 = "\<lparr>success = False, attempts = 0, best_match = 0, best_params = None\<rparr>"
  let ?O = "outer_loop trial thr m r_range x0_range ?st0"
  let ?g = "length r_range * length x0_range"
  from outer_loop_prefix [of r_range x0_range trial thr m ?st0] assms(1,2)
  have a: "1 \<le> attempts ?O" "attempts ?O \<le> ?g"
    by auto
  have g: "0 < ?g" using assms(1,2) by simp
  have b: "int (attempts ?O) \<le> m" if "1 \<le> m" "no_raise"
  proof (rule outer_loop_budget)
    show "trial r x0 \<noteq> Inl e" for r x0 e using assms(3) [OF that(2)] .
    show "int (attempts ?st0) < m" using that(1) by simp
  qed
  have c: "(if attempts ?O < ?g then real (attempts ?O) / real ?g else 1) =
      min 1 (real (attempts ?O) / real ?g)"
    using g a(2) by (rule rate_min)
  have d: "min 1 (real (attempts ?O) / real ?g) = 1 \<longleftrightarrow> attempts ?O = ?g"
    using g a(2) by (rule rate_min)
  show ?thesis
    unfolding attempts_bounded_def search_fields c d
    using a b by (intro conjI impI) simp_all
qed

lemma search_result_linked:
  assumes "0 \<le> thr" "\<And>r x0 c. trial r x0 = Inr (Fin c) \<Longrightarrow> \<bar>c\<bar> \<le> 1"
  shows "result_linked trial thr r_range x0_range (brute_force_search trial thr r_range x0_range m)"
proof -
  let ?st0 = "\<lparr>success = False, attempts = 0, best_match = 0, best_params = None\<rparr>"
  let ?O = "outer_loop trial thr m r_range x0_range ?st0"
  let ?ev = "take (attempts ?O) (List.product r_range x0_range)"
  from outer_loop_prefix [of r_range x0_range trial thr m ?st0]
  have bm: "best_match ?O = Max (set (0 # abs_correlations trial ?ev))"
    by auto
  have fin: "finite (set (0 # abs_correlations trial ?ev))" "set (0 # abs_correlations trial ?ev) \<noteq> {}"
    by simp_all
  have lo: "0 \<le> best_match ?O"
    unfolding bm by (rule Max_ge) simp_all
  have hi: "best_match ?O \<le> 1"
    unfolding bm using abs_correlations_bounded [OF assms(2), where ps = ?ev]
    by (subst Max_le_iff [OF fin]) auto
  have s: "best_match ?O > thr
      \<and> (case best_params ?O of
            None \<Rightarrow> False
          | Some (r, x0) \<Rightarrow>
              (r, x0) \<in> set ?ev \<and> trial r x0 = Inr (Fin (best_match ?O))
              \<or> (r, x0) \<in> set ?ev \<and> trial r x0 = Inr (Fin (- best_match ?O)))"
    if "success ?O"
  proof -
    from outer_loop_success [of ?st0 thr trial m r_range x0_range] assms(1) that
    obtain r x0 c where o: "thr < best_match ?O" "best_params ?O = Some (r, x0)"
        "(r, x0) \<in> set ?ev" "trial r x0 = Inr (Fin c)" "\<bar>c\<bar> = best_match ?O"
      by auto
    from o(5) have "c = best_match ?O \<or> c = - best_match ?O" by auto
    with o show ?thesis by auto
  qed
  show ?thesis
    unfolding result_linked_def search_fields Let_def
  proof (intro conjI impI)
    assume "success ?O"
    from s [OF this] show "thr < best_match ?O" ..
    from s [OF \<open>success ?O\<close>] show "case best_params ?O of
            None \<Rightarrow> False
          | Some (r, x0) \<Rightarrow>
              (r, x0) \<in> set ?ev \<and> trial r x0 = Inr (Fin (best_match ?O))
              \<or> (r, x0) \<in> set ?ev \<and> trial r x0 = Inr (Fin (- best_match ?O))" ..
  qed (rule bm lo hi)+
qed

section \<open>The trials of the three attacks\<close>

lemma length_denormalize [simp]: "length (denormalize bs rng) = length bs"
  by (cases rng) (simp add: denormalize_def)

lemma length_linspace [simp]: "length (linspace a b n) = n"
  by (simp add: linspace_def)

lemma linspace_hd: "0 < n \<Longrightarrow> \<exists>tl. linspace a b n = a # tl"
  by (simp add: linspace_def upt_conv_Cons)

lemma corrcoef_raises: "(\<exists>e. corrcoef x y = Inl e) \<longleftrightarrow> length x \<noteq> length y"
  by (simp add: corrcoef_def Let_def)

lemma corrcoef_bounded: "corrcoef x y = Inr (Fin c) \<Longrightarrow> \<bar>c\<bar> \<le> 1"
  by (auto simp: corrcoef_def Let_def np_clip_def split: if_splits)

lemma corrcoef_constant:
  assumes "length x = length y" "\<forall>b\<in>set y. b = c"
  shows "corrcoef x y = Inr NaN"
proof (cases "y = []")
  case True
  with assms show ?thesis by (simp add: corrcoef_def)
next
  case False
  have m: "np_mean y = c" using False assms(2) by (rule np_mean_const)
  have "(\<Sum>b\<leftarrow>y. (b - c) * (b - c)) = 0"
    using assms(2) by (induction y) simp_all
  then show ?thesis
    using assms(1) by (simp add: corrcoef_def Let_def m)
qed

lemma classical_trial_eq:
  "classical_trial encrypted_signal original_signal signal_range r x0 =
     corrcoef original_signal
       (denormalize (map2 (XOR) encrypted_signal
          (make_xor_mask (logistic_loop r x0 (length encrypted_signal)))) signal_range)"
  by (simp add: classical_trial_def classical_chaotic_decrypt_eq)

lemma permutation_trial_eq:
  "permutation_trial encrypted_signal original_signal signal_range r x0 =
     corrcoef original_signal
       (denormalize
          (map (\<lambda>j. map2 (XOR) encrypted_signal
                      (make_xor_mask (logistic_loop r x0 (length encrypted_signal))) ! j)
             (argsort (argsort (logistic_loop r x0 (length encrypted_signal))))) signal_range)"
  unfolding permutation_trial_def logistic_map_def Let_def bitwise_xor_def
  by (simp add: broadcast2_same_length fancy_index_argsort)

lemma trials_raise:
  "(\<exists>e. classical_trial encrypted_signal original_signal signal_range r x0 = Inl e)
     \<longleftrightarrow> length original_signal \<noteq> length encrypted_signal"
  "(\<exists>e. permutation_trial encrypted_signal original_signal signal_range r x0 = Inl e)
     \<longleftrightarrow> length original_signal \<noteq> length encrypted_signal"
  unfolding classical_trial_eq permutation_trial_eq corrcoef_raises by simp_all

lemma trials_bounded:
  "classical_trial encrypted_signal original_signal signal_range r x0 = Inr (Fin c) \<Longrightarrow> \<bar>c\<bar> \<le> 1"
  "permutation_trial encrypted_signal original_signal signal_range r x0 = Inr (Fin c) \<Longrightarrow> \<bar>c\<bar> \<le> 1"
  unfolding classical_trial_eq permutation_trial_eq by (rule corrcoef_bounded, assumption)+

lemma denormalize_flat: "b \<in> set (denormalize bs (c, c)) \<Longrightarrow> b = c"
  by (auto simp: denormalize_def)

lemma trials_flat_range:
  assumes "length original_signal = length encrypted_signal"
  shows "classical_trial encrypted_signal original_signal (c, c) r x0 = Inr NaN"
    and "permutation_trial encrypted_signal original_signal (c, c) r x0 = Inr NaN"
proof -
  show "classical_trial encrypted_signal original_signal (c, c) r x0 = Inr NaN"
    unfolding classical_trial_eq
    by (rule corrcoef_constant [where c = c]) (use assms in \<open>auto dest: denormalize_flat\<close>)
  show "permutation_trial encrypted_signal original_signal (c, c) r x0 = Inr NaN"
    unfolding permutation_trial_eq
    by (rule corrcoef_constant [where c = c]) (use assms in \<open>auto dest: denormalize_flat\<close>)
qed




section \<open>Concrete attack runs\<close>

lemma outer_first_success:
  assumes "trial r x0 = Inr (Fin c)" "\<bar>c\<bar> > thr" "\<bar>c\<bar> > 0"
  shows "outer_loop trial thr m (r # rs) (x0 # xs)
           \<lparr>success = False, attempts = 0, best_match = 0, best_params = None\<rparr> =
         \<lparr>success = True, attempts = 1, best_match = \<bar>c\<bar>, best_params = Some (r, x0)\<rparr>"
  using assms by (simp add: Let_def)

lemma outer_first_nan:
  assumes "trial r x0 = Inr NaN" "m \<le> 1"
  shows "outer_loop trial thr m (r # rs) (x0 # xs)
           \<lparr>success = False, attempts = 0, best_match = 0, best_params = None\<rparr> =
         \<lparr>success = False, attempts = 1, best_match = 0, best_params = None\<rparr>"
  using assms by (simp add: Let_def)

lemma inner_loop_all_raise:
  assumes "\<And>x0. \<exists>e. trial r x0 = Inl e"
  shows "attempts (inner_loop trial thr m r xs st) = attempts st + length xs"
proof (induction xs arbitrary: st)
  case Nil
  then show ?case by simp
next
  case (Cons x0 xs)
  from assms [of x0] obtain e where "trial r x0 = Inl e" ..
  then show ?case using Cons.IH [of "st\<lparr>attempts := attempts st + 1\<rparr>"] by simp
qed

text \<open>
  The \<open>continue\<close> of the \<open>except\<close> branch skips the budget check: with a plaintext and
  a ciphertext of different lengths every trial raises, and the classical attack with
  \<open>max_attempts = 5\<close> counts the whole first row of ten trials.
\<close>

lemma raise_overshoots_budget:
  "attempts (brute_force_attack_classical [0, 0, 0] [1, 2] (0, 1) 5) = 10"
proof -
  let ?t = "classical_trial [0, 0, 0] [1, 2] (0, 1)"
  let ?st0 = "\<lparr>success = False, attempts = 0, best_match = 0, best_params = None\<rparr>"
  obtain rs where rs: "linspace 3.5 4.0 20 = 3.5 # rs"
    using linspace_hd [of 20 "3.5" "4.0"] by auto
  have r: "\<exists>e. ?t r x0 = Inl e" for r x0
    unfolding trials_raise by simp
  have "attempts (inner_loop ?t 0.7 5 3.5 (linspace 0.1 0.9 10) ?st0) = 10"
    using inner_loop_all_raise [of ?t "3.5" "0.7" 5 "linspace 0.1 0.9 10" ?st0, OF r] by simp
  then have "attempts (outer_loop ?t 0.7 5 (3.5 # rs) (linspace 0.1 0.9 10) ?st0) = 10"
    by (simp add: Let_def)
  then show ?thesis
    unfolding brute_force_attack_classical_def search_fields rs .
qed

lemma loop3: "logistic_loop (7 / 2) (1 / 10) 3 = [63 / 200, 60417 / 80000, 8282022777 / 12800000000]"
  by (simp add: eval_nat_numeral Let_def)

lemma first_trial: "classical_trial [80, 193, 166] [0, 1, 2] (0, 255) (7 / 2) (1 / 10) = Inr (Fin 1)"
proof -
  have len: "length [80, 193, 166 :: u8] = 3" by simp
  have m: "make_xor_mask [63 / 200, 60417 / 80000, 8282022777 / 12800000000] = [80, 192, 164]"
    by (simp add: make_xor_mask_def)
  have x: "map2 (XOR) [80, 193, 166 :: u8] [80, 192, 164] = [0, 1, 2]"
    by simp
  have d: "denormalize [0, 1, 2] (0, 255) = [0, 1, 2]"
    by (simp add: denormalize_def astype_float_def)
  have mean: "np_mean [0, 1, 2] = 1"
    by (simp add: np_mean_def)
  have c: "corrcoef [0, 1, 2] [0, 1, 2] = Inr (Fin 1)"
    by (simp add: corrcoef_def Let_def mean np_clip_def)
  show ?thesis
    unfolding classical_trial_eq len loop3 m x d by (rule c)
qed

lemma attack_first_trial:
  "brute_force_attack_classical [80, 193, 166] [0, 1, 2] (0, 255) m =
     \<lparr>success = True, attempts = 1, best_match = 1, best_params = Some (3.5, 0.1),
      success_rate = 1 / 200\<rparr>"
proof -
  let ?t = "classical_trial [80, 193, 166] [0, 1, 2] (0, 255)"
  let ?st0 = "\<lparr>success = False, attempts = 0, best_match = 0, best_params = None\<rparr>"
  obtain rs where rs: "linspace 3.5 4.0 20 = 3.5 # rs"
    using linspace_hd [of 20 "3.5" "4.0"] by auto
  obtain xs where xs: "linspace 0.1 0.9 10 = 0.1 # xs"
    using linspace_hd [of 10 "0.1" "0.9"] by auto
  have t: "?t 3.5 0.1 = Inr (Fin 1)"
    using first_trial by simp
  have o: "outer_loop ?t 0.7 m (linspace 3.5 4.0 20) (linspace 0.1 0.9 10) ?st0 =
      \<lparr>success = True, attempts = 1, best_match = 1, best_params = Some (3.5, 0.1)\<rparr>"
    unfolding rs xs using outer_first_success [of ?t "3.5" "0.1" 1 "0.7" m rs xs, OF t] by simp
  show ?thesis
    unfolding brute_force_attack_classical_def brute_force_search_def Let_def o
    by simp
qed

lemma attack_nan_zero_budget:
  "brute_force_attack_classical [1, 2] [3, 4] (5, 5) 0 =
     \<lparr>success = False, attempts = 1, best_match = 0, best_params = None,
      success_rate = 1 / 200\<rparr>"
proof -
  let ?t = "classical_trial [1, 2] [3, 4] (5, 5)"
  let ?st0 = "\<lparr>success = False, attempts = 0, best_match = 0, best_params = None\<rparr>"
  obtain rs where rs: "linspace 3.5 4.0 20 = 3.5 # rs"
    using linspace_hd [of 20 "3.5" "4.0"] by auto
  obtain xs where xs: "linspace 0.1 0.9 10 = 0.1 # xs"
    using linspace_hd [of 10 "0.1" "0.9"] by auto
  have t: "?t 3.5 0.1 = Inr NaN"
    by (rule trials_flat_range) simp
  have o: "outer_loop ?t 0.7 0 (linspace 3.5 4.0 20) (linspace 0.1 0.9 10) ?st0 =
      \<lparr>success = False, attempts = 1, best_match = 0, best_params = None\<rparr>"
    unfolding rs xs using outer_first_nan [of ?t "3.5" "0.1" 0 "0.7" rs xs, OF t] by simp
  show ?thesis
    unfolding brute_force_attack_classical_def brute_force_search_def Let_def o
    by simp
qed

section \<open>The attack bound\<close>

text \<open>
  Claim C5 as the specification states it: with \<open>max_attempts = 0\<close> the classical attack
  counts one attempt, since the budget is checked after the trial.
\<close>

theorem attack_zero_budget_counterexample:
  "attempts (brute_force_attack_classical [1, 2] [3, 4] (5, 5) 0) = 1
   \<and> \<not> int (attempts (brute_force_attack_classical [1, 2] [3, 4] (5, 5) 0)) \<le> 0"
  by (simp add: attack_nan_zero_budget)

text \<open>
  Claim C5, amended: each attack counts at least one and at most grid-size attempts (200,
  400 and 600 trials); for \<open>max_attempts \<ge> 1\<close> and a plaintext as long as the ciphertext,
  so that no trial raises, the count never exceeds \<open>max_attempts\<close>; the success rate is the
  count over the grid size, capped at \<open>1\<close>, and is \<open>1\<close> exactly when the count is the grid
  size, that is when the last trial of the grid was evaluated.
\<close>

theorem attack_attempts_bounded:
  "attempts_bounded 200 max_attempts (length original_signal = length encrypted_signal)
     (brute_force_attack_classical encrypted_signal original_signal signal_range max_attempts)
   \<and> attempts_bounded 400 max_attempts (length original_signal = length encrypted_signal)
     (brute_force_attack_biometric encrypted_signal original_signal signal_range max_attempts)
   \<and> attempts_bounded 600 max_attempts (length original_signal = length encrypted_signal)
     (brute_force_attack_ml_enhanced encrypted_signal original_signal signal_range max_attempts)"
proof -
  have ne: "linspace a b 20 \<noteq> []" "linspace a b 10 \<noteq> []" "linspace a b 25 \<noteq> []"
      "linspace a b 16 \<noteq> []" "linspace a b 30 \<noteq> []" for a b
    using length_linspace [of a b] by (metis length_0_conv zero_neq_numeral)+
  have c: "classical_trial encrypted_signal original_signal signal_range r x0 \<noteq> Inl e"
    if "length original_signal = length encrypted_signal" for r x0 e
    using trials_raise(1) [of encrypted_signal original_signal signal_range r x0] that by auto
  have p: "permutation_trial encrypted_signal original_signal signal_range r x0 \<noteq> Inl e"
    if "length original_signal = length encrypted_signal" for r x0 e
    using trials_raise(2) [of encrypted_signal original_signal signal_range r x0] that by auto
  have 1: "attempts_bounded 200 max_attempts (length original_signal = length encrypted_signal)
     (brute_force_attack_classical encrypted_signal original_signal signal_range max_attempts)"
    unfolding brute_force_attack_classical_def
    using search_attempts_bounded [where no_raise = "length original_signal = length encrypted_signal"
        and m = max_attempts and thr = "0.7", OF ne(1) ne(2) c]
    by simp
  have 2: "attempts_bounded 400 max_attempts (length original_signal = length encrypted_signal)
     (brute_force_attack_biometric encrypted_signal original_signal signal_range max_attempts)"
    unfolding brute_force_attack_biometric_def
    using search_attempts_bounded [where no_raise = "length original_signal = length encrypted_signal"
        and m = max_attempts and thr = "0.8", OF ne(3) ne(4) p]
    by simp
  have 3: "attempts_bounded 600 max_attempts (length original_signal = length encrypted_signal)
     (brute_force_attack_ml_enhanced encrypted_signal original_signal signal_range max_attempts)"
    unfolding brute_force_attack_ml_enhanced_def
    using search_attempts_bounded [where no_raise = "length original_signal = length encrypted_signal"
        and m = max_attempts and thr = "0.85", OF ne(5) ne(1) p]
    by simp
  from 1 2 3 show ?thesis by (intro conjI)
qed

theorem attack_attempts_bounded_witness:
  "(1 :: int) \<le> 200 \<and> length [0, 1, 2 :: real] = length [80, 193, 166 :: u8]
   \<and> attempts (brute_force_attack_classical [80, 193, 166] [0, 1, 2] (0, 255) 200) = 1
   \<and> int (attempts (brute_force_attack_classical [80, 193, 166] [0, 1, 2] (0, 255) 200)) \<le> 200
   \<and> success_rate (brute_force_attack_classical [80, 193, 166] [0, 1, 2] (0, 255) 200) = min 1 (1 / 200)
   \<and> int (attempts (brute_force_attack_biometric [80, 193, 166] [0, 1, 2] (0, 255) 7)) \<le> 7"
proof -
  have l: "length [0, 1, 2 :: real] = length [80, 193, 166 :: u8]" by simp
  note t = attack_attempts_bounded [of 200 "[0, 1, 2]" "[80, 193, 166]" "(0, 255)", THEN conjunct1,
      unfolded attempts_bounded_def]
  note b = attack_attempts_bounded [of 7 "[0, 1, 2]" "[80, 193, 166]" "(0, 255)", THEN conjunct2,
      THEN conjunct1, unfolded attempts_bounded_def]
  have a: "attempts (brute_force_attack_classical [80, 193, 166] [0, 1, 2] (0, 255) 200) = 1"
    by (simp add: attack_first_trial)
  from t l have "int (attempts (brute_force_attack_classical [80, 193, 166] [0, 1, 2] (0, 255) 200)) \<le> 200"
    by simp
  moreover from t have "success_rate (brute_force_attack_classical [80, 193, 166] [0, 1, 2] (0, 255) 200)
      = min 1 (1 / 200)"
    unfolding a by simp
  moreover from b l have "int (attempts (brute_force_attack_biometric [80, 193, 166] [0, 1, 2] (0, 255) 7)) \<le> 7"
    by simp
  ultimately show ?thesis using a l by simp
qed

section \<open>Undefined correlations\<close>



section \<open>The fields of a result\<close>

text \<open>
  Claim C10: in the result of each of the three attacks, whatever \<open>max_attempts\<close>, the
  evaluated trials are the first \<open>attempts\<close> trials of the grid; \<open>best_match\<close> is the
  largest absolute correlation among those with a defined correlation (\<open>0\<close> when there is
  none) and lies in \<open>[0, 1]\<close>; when \<open>success\<close> is set, \<open>best_match\<close> exceeds the threshold
  of the variant (0.7, 0.8, 0.85) and \<open>best_params\<close> is an evaluated trial whose absolute
  correlation is \<open>best_match\<close>.
\<close>

theorem attack_result_linked:
  "result_linked (classical_trial encrypted_signal original_signal signal_range) 0.7
     (linspace 3.5 4.0 20) (linspace 0.1 0.9 10)
     (brute_force_attack_classical encrypted_signal original_signal signal_range max_attempts)
   \<and> result_linked (permutation_trial encrypted_signal original_signal signal_range) 0.8
     (linspace 3.5 4.0 25) (linspace 0.1 0.9 16)
     (brute_force_attack_biometric encrypted_signal original_signal signal_range max_attempts)
   \<and> result_linked (permutation_trial encrypted_signal original_signal signal_range) 0.85
     (linspace 3.5 4.0 30) (linspace 0.1 0.9 20)
     (brute_force_attack_ml_enhanced encrypted_signal original_signal signal_range max_attempts)"
  unfolding brute_force_attack_classical_def brute_force_attack_biometric_def
    brute_force_attack_ml_enhanced_def
  by (intro conjI search_result_linked trials_bounded) simp_all

theorem attack_result_linked_witness:
  "success (brute_force_attack_classical [80, 193, 166] [0, 1, 2] (0, 255) 200)
   \<and> 0.7 < best_match (brute_force_attack_classical [80, 193, 166] [0, 1, 2] (0, 255) 200)
   \<and> best_match (brute_force_attack_classical [80, 193, 166] [0, 1, 2] (0, 255) 200) \<le> 1
   \<and> best_params (brute_force_attack_classical [80, 193, 166] [0, 1, 2] (0, 255) 200) = Some (3.5, 0.1)
   \<and> classical_trial [80, 193, 166] [0, 1, 2] (0, 255) 3.5 0.1 = Inr (Fin 1)"
proof -
  let ?res = "brute_force_attack_classical [80, 193, 166] [0, 1, 2] (0, 255) 200"
  have s: "success ?res" and p: "best_params ?res = Some (3.5, 0.1)"
    by (simp_all add: attack_first_trial)
  note t = attack_result_linked [of "[80, 193, 166]" "[0, 1, 2]" "(0, 255)" 200, THEN conjunct1,
      unfolded result_linked_def Let_def]
  from t s have "0.7 < best_match ?res" by blast
  moreover from t have "best_match ?res \<le> 1" by blast
  moreover have "classical_trial [80, 193, 166] [0, 1, 2] (0, 255) 3.5 0.1 = Inr (Fin 1)"
    using first_trial by simp
  ultimately show ?thesis using s p by (intro conjI)
qed

end
